theory Spec2Isabelle
  imports Complex_Main "HOL-Library.Sublist"
begin

section \<open>Values exchanged with the numerical framework\<close>

text \<open>
  The training script \<^verbatim>\<open>train_rnn.py\<close> drives a tensor framework. Tensors of parameters are
  modelled as functions from a parameter index \<open>'k\<close> to a number, floating-point numbers as
  real numbers (rounding is not modelled), and an input sequence as a value of an abstract
  type \<open>'x\<close>. A batch is the list of its input sequences together with the label rows of
  the same examples; labels and predicted classes are class indices. The transfer of a
  batch to the device changes no value and is left out.
\<close>

type_synonym 'k tensor = "'k \<Rightarrow> real"

type_synonym logits = "real \<times> real \<times> real"

type_synonym 'x example = "'x \<times> nat list"

type_synonym 'x batch = "'x list \<times> nat list list"

text \<open>
  The quotient \<^verbatim>\<open>tensor / float\<close> does not raise when the divisor is zero: it yields the
  special value NaN, which is kept apart from the numbers.
\<close>

datatype pyfloat = Num real | NaN

datatype error =
    ValueError
  | IndexError
  | ZeroDivisionError
  | UnboundLocalError string

text \<open>
  A call either returns a value and the state it leaves behind, or raises an exception
  in the state reached at that point.
\<close>

datatype ('a, 's) result = Return 'a 's | Raise error 's

fun state_of :: "('a, 's) result \<Rightarrow> 's" where
  "state_of (Return v s) = s"
| "state_of (Raise e s) = s"

fun is_Return :: "('a, 's) result \<Rightarrow> bool" where
  "is_Return (Return v s) = True"
| "is_Return (Raise e s) = False"

text \<open>The effects of a run that are visible from outside, in the order they happen.\<close>

datatype ('k, 'x) event =
    Makedirs string
  | ZeroGrad
  | Backward
  | OptimStep
  | Save string "'k tensor"
  | ValidBatch "'x batch"
  | PrintLoss nat nat nat real real
  | PrintAcc pyfloat pyfloat pyfloat pyfloat
  | AddScalars string "(string \<times> pyfloat) list" nat

text \<open>
  The attributes of \<^verbatim>\<open>config.Config()\<close> that \<^verbatim>\<open>main\<close> reads, and the command line
  arguments the parser of the script accepts. An option that is not given has its default;
  \<^verbatim>\<open>--resume\<close> has the default \<^verbatim>\<open>False\<close>, here \<open>None\<close>.
\<close>

record config =
  rnn_lr :: real
  rnn_num_epochs :: int
  rnn_summary_step :: int
  rnn_ckpt_step :: int
  to_init_rnn :: bool
  num_steps :: int
  step_stride :: real
  rnn_batch_size :: int
  rnn_num_workers :: int

record args =
  gpu_idx :: string
  zarr_path :: string
  ckpt_dir :: string
  resume :: "string option"

text \<open>
  What the script imports and does not define: the configuration, the data set reader,
  the network (its initial parameters, its forward pass in training or evaluation mode),
  the loss, automatic differentiation, the optimizer's update rule and the random numbers
  that the two samplers consume. \<open>apply_init_weights\<close> stands for
  \<^verbatim>\<open>model.apply(init_weights)\<close>, whose result depends on random initialisers.
\<close>

record ('k, 'o, 'x) framework =
  Config :: config
  Sequences :: "string \<Rightarrow> string \<Rightarrow> 'x example list"
  path_exists :: "string \<Rightarrow> bool"
  PpkNet :: "'k tensor"
  apply_init_weights :: "'k tensor \<Rightarrow> 'k tensor"
  forward :: "'k tensor \<Rightarrow> bool \<Rightarrow> 'x list \<Rightarrow> logits list list"
  CrossEntropyLoss :: "logits list \<Rightarrow> nat list \<Rightarrow> real"
  autograd :: "'k tensor \<Rightarrow> 'x list \<Rightarrow> nat list \<Rightarrow> 'k tensor"
  Adam :: 'o
  adam_step :: "real \<Rightarrow> 'o \<Rightarrow> 'k tensor \<Rightarrow> 'k tensor \<Rightarrow> 'o \<times> 'k tensor"
  randperm_key :: "nat \<Rightarrow> nat \<Rightarrow> nat"
  randint :: "nat \<Rightarrow> nat \<Rightarrow> nat"

text \<open>
  The mutable objects of a run: the model (parameters, accumulated gradients, mode flag),
  the optimizer (learning rate, internal state), the local variables
  \<^verbatim>\<open>valid_acc, valid_loss, valid_dt\<close> of \<^verbatim>\<open>main\<close>, which are unbound until the first
  validation batch has been processed, and the trace of effects so far.
\<close>

record ('k, 'o, 'x) state =
  params :: "'k tensor"
  grads :: "'k tensor"
  training :: bool
  opt_lr :: real
  opt_state :: 'o
  valid_vars :: "(pyfloat \<times> real \<times> pyfloat) option"
  trace :: "('k, 'x) event list"

section \<open>Tensor operations used by the two steps\<close>

text \<open>\<^verbatim>\<open>torch.argmax(pred_logits, 1)\<close>: the index of the first maximal entry of a row.\<close>

fun argmax :: "logits \<Rightarrow> nat" where
  "argmax (a, b, c) = (if b \<le> a \<and> c \<le> a then 0 else if c \<le> b then 1 else 2)"

text \<open>
  \<^verbatim>\<open>pred_class.eq(target).sum()\<close> (lines 96 and 113) on two vectors of the same length:
  the number of positions at which they agree.
\<close>

definition eq_sum :: "nat list \<Rightarrow> nat list \<Rightarrow> nat" where
  "eq_sum pred_class target = length (filter (\<lambda>(p, t). p = t) (zip pred_class target))"

text \<open>
  \<^verbatim>\<open>count / float(target.size(0))\<close> (lines 96 and 113), a tensor divided by a number:
  NaN when the divisor is zero, and no exception.
\<close>

definition true_div :: "nat \<Rightarrow> nat \<Rightarrow> pyfloat" where
  "true_div c n = (if n = 0 then NaN else Num (real c / real n))"

fun pf_map :: "(real \<Rightarrow> real) \<Rightarrow> pyfloat \<Rightarrow> pyfloat" where
  "pf_map f (Num a) = Num (f a)"
| "pf_map f NaN = NaN"

text \<open>
  The call \<^verbatim>\<open>criterion(pred_logits, target)\<close> of the cross-entropy loss raises when the
  number of rows differs from the number of labels, or a label is not one of the three
  classes; otherwise it returns the loss.
\<close>

definition criterion ::
  "('k, 'o, 'x) framework \<Rightarrow> logits list \<Rightarrow> nat list \<Rightarrow> error + real" where
  "criterion env pred_logits target =
     (if length pred_logits \<noteq> length target then Inl ValueError
      else if \<not> list_all (\<lambda>t. t < 3) target then Inl IndexError
      else Inr (CrossEntropyLoss env pred_logits target))"

definition zero_grad :: "('k, 'o, 'x) state \<Rightarrow> ('k, 'o, 'x) state" where
  "zero_grad s = s\<lparr>grads := (\<lambda>k. 0), trace := trace s @ [ZeroGrad]\<rparr>"

text \<open>\<^verbatim>\<open>loss.backward()\<close> adds the gradient of the loss to the accumulated gradients.\<close>

definition backward ::
  "('k, 'o, 'x) framework \<Rightarrow> 'x list \<Rightarrow> nat list \<Rightarrow> ('k, 'o, 'x) state \<Rightarrow> ('k, 'o, 'x) state" where
  "backward env data target s =
     s\<lparr>grads := (\<lambda>k. grads s k + autograd env (params s) data target k),
       trace := trace s @ [Backward]\<rparr>"

definition optimizer_step ::
  "('k, 'o, 'x) framework \<Rightarrow> ('k, 'o, 'x) state \<Rightarrow> ('k, 'o, 'x) state" where
  "optimizer_step env s =
     (let r = adam_step env (opt_lr s) (opt_state s) (params s) (grads s)
      in s\<lparr>params := snd r, opt_state := fst r, trace := trace s @ [OptimStep]\<rparr>)"

section \<open>The training step and the validation step\<close>

text \<open>
  \<^verbatim>\<open>train_step\<close> (lines 88 to 101) and \<^verbatim>\<open>valid_step\<close> (lines 105 to 114). The model
  and the optimizer are the fields of the state; the loss is the one of the framework.
  The output of the network, of shape batch by time by three, is a list of lists of rows,
  and both \<^verbatim>\<open>view\<close> calls flatten the two outer dimensions.
\<close>

definition train_step ::
  "('k, 'o, 'x) framework \<Rightarrow> ('k, 'o, 'x) state \<Rightarrow> 'x list \<Rightarrow> nat list list
     \<Rightarrow> (pyfloat \<times> real, ('k, 'o, 'x) state) result" where
  "train_step env s data target =
     (let s1 = s\<lparr>training := True\<rparr>;
          pred_logits = concat (forward env (params s1) (training s1) data);
          pred_class = map argmax pred_logits;
          target1 = concat target
      in case criterion env pred_logits target1 of
           Inl e \<Rightarrow> Raise e s1
         | Inr loss \<Rightarrow>
             (let acc_seq = true_div (eq_sum pred_class target1) (length target1);
                  s2 = zero_grad s1;
                  s3 = backward env data target1 s2;
                  s4 = optimizer_step env s3
              in Return (acc_seq, loss) s4))"

definition valid_step ::
  "('k, 'o, 'x) framework \<Rightarrow> ('k, 'o, 'x) state \<Rightarrow> 'x list \<Rightarrow> nat list list
     \<Rightarrow> (pyfloat \<times> real, ('k, 'o, 'x) state) result" where
  "valid_step env s data target =
     (let s1 = s\<lparr>training := False\<rparr>;
          pred_logits = concat (forward env (params s1) (training s1) data);
          pred_class = map argmax pred_logits;
          target1 = concat target
      in case criterion env pred_logits target1 of
           Inl e \<Rightarrow> Raise e s1
         | Inr loss \<Rightarrow>
             (let acc_seq = true_div (eq_sum pred_class target1) (length target1)
              in Return (acc_seq, loss) s1))"

section \<open>File names of checkpoints\<close>

text \<open>\<^verbatim>\<open>'%s' % n\<close> for a non-negative integer: its decimal digits, most significant first.\<close>

definition digit_char :: "nat \<Rightarrow> char" where
  "digit_char d = ''0123456789'' ! d"

fun str_nat :: "nat \<Rightarrow> string" where
  "str_nat n = (if n < 10 then [digit_char n] else str_nat (n div 10) @ [digit_char (n mod 10)])"

declare str_nat.simps [simp del]

text \<open>\<^verbatim>\<open>'%s_%s-%s.ckpt' % (global_step, epoch_idx, iter_idx)\<close>\<close>

definition ckpt_name :: "nat \<Rightarrow> nat \<Rightarrow> nat \<Rightarrow> string" where
  "ckpt_name global_step epoch_idx iter_idx =
     str_nat global_step @ ''_'' @ str_nat epoch_idx @ ''-'' @ str_nat iter_idx @ ''.ckpt''"

text \<open>
  \<^verbatim>\<open>os.path.join(a, b)\<close> on a POSIX system: an absolute second component replaces the
  first, and a separator is inserted unless the first is empty or already ends with one.
\<close>

definition path_join :: "string \<Rightarrow> string \<Rightarrow> string" where
  "path_join a b =
     (if b \<noteq> [] \<and> hd b = CHR ''/'' then b
      else if a = [] \<or> last a = CHR ''/'' then a @ b
      else a @ ''/'' @ b)"

definition ckpt_path :: "string \<Rightarrow> nat \<Rightarrow> nat \<Rightarrow> nat \<Rightarrow> string" where
  "ckpt_path dir global_step epoch_idx iter_idx =
     path_join dir (ckpt_name global_step epoch_idx iter_idx)"

section \<open>Data loaders\<close>

text \<open>
  A batch sampler with \<^verbatim>\<open>drop_last=False\<close> cuts the sequence of sampled examples into
  consecutive groups of \<open>batch_size\<close>, the last one possibly shorter.
\<close>

function chunks :: "nat \<Rightarrow> 'a list \<Rightarrow> 'a list list" where
  "chunks n xs = (if n = 0 \<or> xs = [] then [] else take n xs # chunks n (drop n xs))"
  by pat_completeness auto
termination
  by (relation "measure (\<lambda>(n, xs). length xs)") auto

declare chunks.simps [simp del]

text \<open>The default collate function turns a group of examples into one batch.\<close>

definition collate :: "'x example list \<Rightarrow> 'x batch" where
  "collate exs = (map fst exs, map snd exs)"

text \<open>
  A random permutation: the examples ordered by the random keys drawn for their positions.
  \<open>randperm_key env epoch\<close> gives the keys of the permutation drawn for an epoch.
\<close>

definition randperm :: "(nat \<Rightarrow> nat) \<Rightarrow> 'a list \<Rightarrow> 'a list" where
  "randperm key xs = map snd (sort_key fst (zip (map key [0..<length xs]) xs))"

text \<open>
  One pass over \<^verbatim>\<open>train_loader\<close> (shuffled, every example once) in the given epoch, and
  \<^verbatim>\<open>len(train_loader)\<close>.
\<close>

definition train_loader ::
  "('k, 'o, 'x) framework \<Rightarrow> 'x example list \<Rightarrow> nat \<Rightarrow> nat \<Rightarrow> 'x batch list" where
  "train_loader env train_set batch_size epoch_idx =
     map collate (chunks batch_size (randperm (randperm_key env epoch_idx) train_set))"

definition len_loader :: "'x example list \<Rightarrow> nat \<Rightarrow> nat" where
  "len_loader data_set batch_size = (length data_set + batch_size - 1) div batch_size"

text \<open>
  One pass over \<^verbatim>\<open>valid_loader\<close>, started at the given global step: as many examples as
  the validation set has are drawn from it independently, with replacement, and grouped
  by the same \<open>batch_size\<close> as the training batches.
\<close>

definition valid_loader ::
  "('k, 'o, 'x) framework \<Rightarrow> 'x example list \<Rightarrow> nat \<Rightarrow> nat \<Rightarrow> 'x batch list" where
  "valid_loader env valid_set batch_size global_step =
     map collate (chunks batch_size
       (map (\<lambda>p. valid_set ! (randint env global_step p mod length valid_set))
          [0..<length valid_set]))"

section \<open>The main loop\<close>

text \<open>The local variables of \<^verbatim>\<open>main\<close> that are fixed before the loop starts.\<close>

record 'x locals =
  cfg :: config
  dir :: string
  batch_size :: nat
  train_set :: "'x example list"
  valid_set :: "'x example list"
  num_batch :: nat

text \<open>
  \<^verbatim>\<open>a % b\<close> on integers (lines 63 and 66): the remainder has the sign of the divisor,
  as \<open>mod\<close> on \<open>int\<close> has, and a zero divisor raises.
\<close>

definition py_mod :: "int \<Rightarrow> int \<Rightarrow> error + int" where
  "py_mod a b = (if b = 0 then Inl ZeroDivisionError else Inr (a mod b))"

text \<open>\<^verbatim>\<open>global_step = num_batch * epoch_idx + iter_idx\<close> (line 57)\<close>

definition global_step_of :: "'x locals \<Rightarrow> nat \<Rightarrow> nat \<Rightarrow> nat" where
  "global_step_of L epoch_idx iter_idx = num_batch L * epoch_idx + iter_idx"

text \<open>
  \<^verbatim>\<open>num_steps * (1 - acc) * step_stride / 2\<close> (line 61 for the training accuracy, line 71
  for the validation accuracy); NaN stays NaN.
\<close>

definition timing_error :: "int \<Rightarrow> real \<Rightarrow> pyfloat \<Rightarrow> pyfloat" where
  "timing_error n_steps stride acc = pf_map (\<lambda>a. real_of_int n_steps * (1 - a) * stride / 2) acc"

text \<open>\<^verbatim>\<open>torch.save(model.state_dict(), os.path.join(ckpt_dir, \<dots>))\<close> (line 64)\<close>

definition save_model ::
  "'x locals \<Rightarrow> nat \<Rightarrow> nat \<Rightarrow> nat \<Rightarrow> ('k, 'o, 'x) state \<Rightarrow> ('k, 'o, 'x) state" where
  "save_model L global_step epoch_idx iter_idx s =
     s\<lparr>trace := trace s @ [Save (ckpt_path (dir L) global_step epoch_idx iter_idx) (params s)]\<rparr>"

text \<open>
  The loop over \<^verbatim>\<open>valid_loader\<close> (lines 67 to 72), whose body ends with \<^verbatim>\<open>break\<close>:
  only the first batch is fetched, and nothing is assigned when there is none.
\<close>

definition valid_first ::
  "('k, 'o, 'x) framework \<Rightarrow> 'x locals \<Rightarrow> nat \<Rightarrow> ('k, 'o, 'x) state
     \<Rightarrow> (unit, ('k, 'o, 'x) state) result" where
  "valid_first env L global_step s =
     (case valid_loader env (valid_set L) (batch_size L) global_step of
        [] \<Rightarrow> Return () s
      | b # rest \<Rightarrow>
          (case valid_step env (s\<lparr>trace := trace s @ [ValidBatch b]\<rparr>) (fst b) (snd b) of
             Raise e s1 \<Rightarrow> Raise e s1
           | Return (valid_acc, valid_loss) s1 \<Rightarrow>
               Return () (s1\<lparr>valid_vars :=
                 Some (valid_acc, valid_loss,
                       timing_error (num_steps (cfg L)) (step_stride (cfg L)) valid_acc)\<rparr>)))"

text \<open>
  The two \<^verbatim>\<open>print\<close> calls and the three \<^verbatim>\<open>add_scalars\<close> calls (lines 74 to 84). The
  first use of a validation variable is \<^verbatim>\<open>valid_loss\<close> in the first print. The elapsed
  wall time of the first line is left out, and so is the formatting of the numbers.
\<close>

definition visualization ::
  "nat \<Rightarrow> nat \<Rightarrow> nat \<Rightarrow> pyfloat \<Rightarrow> real \<Rightarrow> pyfloat \<Rightarrow> ('k, 'o, 'x) state
     \<Rightarrow> (unit, ('k, 'o, 'x) state) result" where
  "visualization global_step epoch_idx iter_idx train_acc train_loss train_dt s =
     (case valid_vars s of
        None \<Rightarrow> Raise (UnboundLocalError ''valid_loss'') s
      | Some (valid_acc, valid_loss, valid_dt) \<Rightarrow>
          Return () (s\<lparr>trace := trace s @
            [PrintLoss global_step iter_idx epoch_idx train_loss valid_loss,
             PrintAcc (pf_map (\<lambda>a. 100 * a) train_acc) train_dt
                      (pf_map (\<lambda>a. 100 * a) valid_acc) valid_dt,
             AddScalars ''loss''
               [(''train_loss'', Num train_loss), (''valid_loss'', Num valid_loss)] global_step,
             AddScalars ''seq_acc''
               [(''train_acc'', pf_map (\<lambda>a. a * 100) train_acc),
                (''valid_acc'', pf_map (\<lambda>a. a * 100) valid_acc)] global_step,
             AddScalars ''dt_sec''
               [(''train_dt'', train_dt), (''valid_dt'', valid_dt)] global_step]\<rparr>))"

text \<open>
  The body of the inner loop (lines 57 to 84), for one batch of the training loader, and
  the two loops (lines 55 and 56) over \<^verbatim>\<open>range(num_epochs)\<close> and
  \<^verbatim>\<open>enumerate(train_loader)\<close>.
\<close>

definition iteration ::
  "('k, 'o, 'x) framework \<Rightarrow> 'x locals \<Rightarrow> nat \<Rightarrow> nat \<Rightarrow> 'x batch \<Rightarrow> ('k, 'o, 'x) state
     \<Rightarrow> (unit, ('k, 'o, 'x) state) result" where
  "iteration env L epoch_idx iter_idx b s =
     (let global_step = global_step_of L epoch_idx iter_idx
      in case train_step env s (fst b) (snd b) of
           Raise e s1 \<Rightarrow> Raise e s1
         | Return (train_acc, train_loss) s1 \<Rightarrow>
             (let train_dt = timing_error (num_steps (cfg L)) (step_stride (cfg L)) train_acc
              in case py_mod (int global_step) (rnn_ckpt_step (cfg L)) of
                   Inl e \<Rightarrow> Raise e s1
                 | Inr r \<Rightarrow>
                     (let s2 = (if r = 0 then save_model L global_step epoch_idx iter_idx s1
                                else s1)
                      in case py_mod (int global_step) (rnn_summary_step (cfg L)) of
                           Inl e \<Rightarrow> Raise e s2
                         | Inr r' \<Rightarrow>
                             if r' \<noteq> 0 then Return () s2
                             else (case valid_first env L global_step s2 of
                                     Raise e s3 \<Rightarrow> Raise e s3
                                   | Return u s3 \<Rightarrow>
                                       visualization global_step epoch_idx iter_idx
                                         train_acc train_loss train_dt s3))))"

fun batch_loop ::
  "('k, 'o, 'x) framework \<Rightarrow> 'x locals \<Rightarrow> nat \<Rightarrow> (nat \<times> 'x batch) list \<Rightarrow> ('k, 'o, 'x) state
     \<Rightarrow> (unit, ('k, 'o, 'x) state) result" where
  "batch_loop env L epoch_idx [] s = Return () s"
| "batch_loop env L epoch_idx ((iter_idx, b) # rest) s =
     (case iteration env L epoch_idx iter_idx b s of
        Raise e s1 \<Rightarrow> Raise e s1
      | Return u s1 \<Rightarrow> batch_loop env L epoch_idx rest s1)"

fun epoch_loop ::
  "('k, 'o, 'x) framework \<Rightarrow> 'x locals \<Rightarrow> nat list \<Rightarrow> ('k, 'o, 'x) state
     \<Rightarrow> (unit, ('k, 'o, 'x) state) result" where
  "epoch_loop env L [] s = Return () s"
| "epoch_loop env L (epoch_idx # rest) s =
     (case batch_loop env L epoch_idx
             (enumerate 0 (train_loader env (train_set L) (batch_size L) epoch_idx)) s of
        Raise e s1 \<Rightarrow> Raise e s1
      | Return u s1 \<Rightarrow> epoch_loop env L rest s1)"

section \<open>The entry point\<close>

text \<open>
  The state in which the loop starts: the directory for checkpoints is created if it is
  missing, the network is built (in training mode, as a new module is) and initialised
  if the configuration says so, and the optimizer is created over its parameters.
\<close>

definition initial_state ::
  "args \<Rightarrow> ('k, 'o, 'x) framework \<Rightarrow> ('k, 'o, 'x) state" where
  "initial_state a env =
     \<lparr>params = (if to_init_rnn (Config env) then apply_init_weights env (PpkNet env)
                else PpkNet env),
      grads = (\<lambda>k. 0),
      training = True,
      opt_lr = rnn_lr (Config env),
      opt_state = Adam env,
      valid_vars = None,
      trace = (if path_exists env (ckpt_dir a) then [] else [Makedirs (ckpt_dir a)])\<rparr>"

definition main_locals :: "args \<Rightarrow> ('k, 'o, 'x) framework \<Rightarrow> 'x locals" where
  "main_locals a env =
     \<lparr>cfg = Config env,
      dir = ckpt_dir a,
      batch_size = nat (rnn_batch_size (Config env)),
      train_set = Sequences env (zarr_path a) ''train'',
      valid_set = Sequences env (zarr_path a) ''valid'',
      num_batch = len_loader (Sequences env (zarr_path a) ''train'')
                    (nat (rnn_batch_size (Config env)))\<rparr>"

text \<open>
  \<^verbatim>\<open>main\<close> (lines 17 to 84). The constructors of the two loaders (lines 38 and 39)
  raise \<^verbatim>\<open>ValueError\<close> for a batch size that is not positive and for a random sampler
  over an empty data set. This happens before the network is built: of the state of such
  a run only the trace, with the effect on the directory, has been reached.
\<close>

definition main ::
  "args \<Rightarrow> ('k, 'o, 'x) framework \<Rightarrow> (unit, ('k, 'o, 'x) state) result" where
  "main a env =
     (let L = main_locals a env;
          s0 = initial_state a env
      in if train_set L = [] \<or> rnn_batch_size (cfg L) \<le> 0 then Raise ValueError s0
         else if valid_set L = [] then Raise ValueError s0
         else epoch_loop env L [0..<nat (rnn_num_epochs (cfg L))] s0)"

section \<open>Observations on a run\<close>

text \<open>
  The checkpoint test and the summary test of the loop body compare
  \<^verbatim>\<open>global_step % step\<close> with zero; the test is passed when the step is not zero (the
  remainder is then defined) and divides the global step.
\<close>

definition due :: "int \<Rightarrow> nat \<Rightarrow> bool" where
  "due step global_step = (step \<noteq> 0 \<and> int global_step mod step = 0)"

text \<open>The files written by \<^verbatim>\<open>torch.save\<close>, in order: path and content.\<close>

fun save_of :: "('k, 'x) event \<Rightarrow> (string \<times> 'k tensor) list" where
  "save_of (Save path w) = [(path, w)]"
| "save_of (Makedirs d) = []"
| "save_of ZeroGrad = []"
| "save_of Backward = []"
| "save_of OptimStep = []"
| "save_of (ValidBatch b) = []"
| "save_of (PrintLoss g i e l l') = []"
| "save_of (PrintAcc a d a' d') = []"
| "save_of (AddScalars tag kv g) = []"

definition saved :: "('k, 'x) event list \<Rightarrow> (string \<times> 'k tensor) list" where
  "saved tr = concat (map save_of tr)"

text \<open>The number of parameter updates by the optimizer.\<close>

definition updates :: "('k, 'x) event list \<Rightarrow> nat" where
  "updates tr = length (filter (\<lambda>ev. ev = OptimStep) tr)"

text \<open>
  What the metric logger does, in order: a validation batch is drawn (with the number of
  its examples), a line is printed, a group of scalars is appended under a tag with its
  keys at a global step.
\<close>

datatype summary =
    Drawn nat
  | PrintedLoss nat nat nat
  | PrintedAcc
  | Scalars string "string list" nat

fun summary_of :: "('k, 'x) event \<Rightarrow> summary list" where
  "summary_of (ValidBatch b) = [Drawn (length (fst b))]"
| "summary_of (PrintLoss g i e l l') = [PrintedLoss g i e]"
| "summary_of (PrintAcc a d a' d') = [PrintedAcc]"
| "summary_of (AddScalars tag kv g) = [Scalars tag (map fst kv) g]"
| "summary_of (Makedirs d) = []"
| "summary_of ZeroGrad = []"
| "summary_of Backward = []"
| "summary_of OptimStep = []"
| "summary_of (Save path w) = []"

definition summaries :: "('k, 'x) event list \<Rightarrow> summary list" where
  "summaries tr = concat (map summary_of tr)"

text \<open>One logging event at a global step, after a validation batch of \<open>n\<close> examples.\<close>

definition logging_event :: "nat \<Rightarrow> nat \<Rightarrow> nat \<Rightarrow> nat \<Rightarrow> summary list" where
  "logging_event n global_step epoch_idx iter_idx =
     [Drawn n,
      PrintedLoss global_step iter_idx epoch_idx,
      PrintedAcc,
      Scalars ''loss'' [''train_loss'', ''valid_loss''] global_step,
      Scalars ''seq_acc'' [''train_acc'', ''valid_acc''] global_step,
      Scalars ''dt_sec'' [''train_dt'', ''valid_dt''] global_step]"

text \<open>
  The iterations that the two nested loops go through, as one sequence of epoch index,
  batch index and batch, and the loop body run over such a sequence.
\<close>

definition epoch_iterations ::
  "('k, 'o, 'x) framework \<Rightarrow> 'x locals \<Rightarrow> nat \<Rightarrow> (nat \<times> nat \<times> 'x batch) list" where
  "epoch_iterations env L epoch_idx =
     map (\<lambda>(iter_idx, b). (epoch_idx, iter_idx, b))
       (enumerate 0 (train_loader env (train_set L) (batch_size L) epoch_idx))"

definition iterations ::
  "('k, 'o, 'x) framework \<Rightarrow> 'x locals \<Rightarrow> nat list \<Rightarrow> (nat \<times> nat \<times> 'x batch) list" where
  "iterations env L epochs = concat (map (epoch_iterations env L) epochs)"

fun run_iterations ::
  "('k, 'o, 'x) framework \<Rightarrow> 'x locals \<Rightarrow> (nat \<times> nat \<times> 'x batch) list \<Rightarrow> ('k, 'o, 'x) state
     \<Rightarrow> (unit, ('k, 'o, 'x) state) result" where
  "run_iterations env L [] s = Return () s"
| "run_iterations env L ((epoch_idx, iter_idx, b) # rest) s =
     (case iteration env L epoch_idx iter_idx b s of
        Raise e s1 \<Rightarrow> Raise e s1
      | Return u s1 \<Rightarrow> run_iterations env L rest s1)"

text \<open>
  The checkpoint files and the logging events that a sequence of iterations calls for:
  those of the iterations whose global step passes the test, in order.
\<close>

definition checkpoints_of :: "'x locals \<Rightarrow> (nat \<times> nat \<times> 'x batch) list \<Rightarrow> string list" where
  "checkpoints_of L its =
     map (\<lambda>(e, i, b). ckpt_path (dir L) (global_step_of L e i) e i)
       (filter (\<lambda>(e, i, b). due (rnn_ckpt_step (cfg L)) (global_step_of L e i)) its)"

definition logging_of :: "'x locals \<Rightarrow> (nat \<times> nat \<times> 'x batch) list \<Rightarrow> summary list" where
  "logging_of L its =
     concat (map (\<lambda>(e, i, b). logging_event (min (batch_size L) (length (valid_set L)))
                                (global_step_of L e i) e i)
       (filter (\<lambda>(e, i, b). due (rnn_summary_step (cfg L)) (global_step_of L e i)) its))"

text \<open>The global steps of a run of \<^verbatim>\<open>main\<close>: one per batch and epoch.\<close>

definition total_steps :: "args \<Rightarrow> ('k, 'o, 'x) framework \<Rightarrow> nat" where
  "total_steps a env =
     nat (rnn_num_epochs (Config env)) * num_batch (main_locals a env)"

text \<open>
  The same for a whole run of \<^verbatim>\<open>main\<close>, in terms of the global steps
  \<open>0, 1, \<dots>\<close> alone: at global step \<open>g\<close> the epoch index is \<open>g div num_batch\<close> and
  the batch index \<open>g mod num_batch\<close>.
\<close>

definition expected_checkpoints :: "args \<Rightarrow> ('k, 'o, 'x) framework \<Rightarrow> string list" where
  "expected_checkpoints a env =
     map (\<lambda>g. ckpt_path (ckpt_dir a) g (g div num_batch (main_locals a env))
                 (g mod num_batch (main_locals a env)))
       (filter (due (rnn_ckpt_step (Config env))) [0..<total_steps a env])"

definition expected_logging :: "args \<Rightarrow> ('k, 'o, 'x) framework \<Rightarrow> summary list" where
  "expected_logging a env =
     concat (map (\<lambda>g. logging_event
                        (min (nat (rnn_batch_size (Config env)))
                             (length (Sequences env (zarr_path a) ''valid'')))
                        g (g div num_batch (main_locals a env))
                        (g mod num_batch (main_locals a env)))
       (filter (due (rnn_summary_step (Config env))) [0..<total_steps a env]))"

text \<open>
  The forward computation as the design describes it for both steps: logits reshaped to
  rows of three, the predicted class of each row, the flattened labels, the loss over all
  rows and the fraction of rows whose predicted class is the label. The mode of the
  network is a parameter.
\<close>

definition forward_metrics ::
  "('k, 'o, 'x) framework \<Rightarrow> 'k tensor \<Rightarrow> bool \<Rightarrow> 'x list \<Rightarrow> nat list list
     \<Rightarrow> error + (pyfloat \<times> real)" where
  "forward_metrics env w mode data target =
     (let pred_logits = concat (forward env w mode data);
          pred_class = map argmax pred_logits;
          labels = concat target
      in case criterion env pred_logits labels of
           Inl e \<Rightarrow> Inl e
         | Inr loss \<Rightarrow> Inr (true_div (eq_sum pred_class labels) (length labels), loss))"

text \<open>What a call hands back to its caller: the value returned or the exception raised.\<close>

fun outcome :: "('a, 's) result \<Rightarrow> error + 'a" where
  "outcome (Return v s) = Inr v"
| "outcome (Raise e s) = Inl e"

section \<open>A small run\<close>

text \<open>
  A configuration and a framework on which the definitions can be evaluated: three
  training examples and four validation examples of two time steps each, batches of two,
  two epochs, a checkpoint every third step and a summary every second step. The network
  predicts class 0 for the first time step and class 1 for the second, whatever its
  parameters are.
\<close>

definition demo_cfg :: config where
  "demo_cfg = \<lparr>rnn_lr = 1 / 1000, rnn_num_epochs = 2, rnn_summary_step = 2, rnn_ckpt_step = 3,
     to_init_rnn = False, num_steps = 2, step_stride = 1 / 2, rnn_batch_size = 2,
     rnn_num_workers = 0\<rparr>"

definition demo_env :: "(nat, unit, nat) framework" where
  "demo_env = \<lparr>Config = demo_cfg,
     Sequences = (\<lambda>p split. if split = ''train'' then [(0, [0, 1]), (1, [1, 2]), (2, [2, 0])]
                     else [(7, [0, 0]), (8, [1, 1]), (9, [2, 2]), (10, [0, 1])]),
     path_exists = (\<lambda>p. False),
     PpkNet = (\<lambda>k. 0),
     apply_init_weights = (\<lambda>w. w),
     forward = (\<lambda>w m xs. map (\<lambda>x. [(1, 0, 0), (0, 1, 0)]) xs),
     CrossEntropyLoss = (\<lambda>l t. 1),
     autograd = (\<lambda>w d t k. 1),
     Adam = (),
     adam_step = (\<lambda>lr st w g. (st, \<lambda>k. w k - lr * g k)),
     randperm_key = (\<lambda>e p. p),
     randint = (\<lambda>g p. p)\<rparr>"

definition demo_args :: args where
  "demo_args = \<lparr>gpu_idx = ''0'', zarr_path = ''data.zarr'', ckpt_dir = ''out'', resume = None\<rparr>"

text \<open>The first training batch of that run and the state in which the loop starts.\<close>

definition demo_data :: "nat list" where
  "demo_data = [0, 1]"

definition demo_target :: "nat list list" where
  "demo_target = [[0, 1], [1, 2]]"

definition demo_state :: "(nat, unit, nat) state" where
  "demo_state = initial_state demo_args demo_env"

definition demo_locals :: "nat locals" where
  "demo_locals = main_locals demo_args demo_env"

definition demo_batch :: "nat batch" where
  "demo_batch = (demo_data, demo_target)"

text \<open>The iterations of a run of \<^verbatim>\<open>main\<close>.\<close>

definition main_iterations ::
  "args \<Rightarrow> ('k, 'o, 'x) framework \<Rightarrow> (nat \<times> nat \<times> 'x batch) list" where
  "main_iterations a env =
     iterations env (main_locals a env) [0..<nat (rnn_num_epochs (Config env))]"

text \<open>
  The size of the first batch of the validation loader, and the logging events of a run
  that logs at every global step.
\<close>

definition drawn_size :: "args \<Rightarrow> ('k, 'o, 'x) framework \<Rightarrow> nat" where
  "drawn_size a env =
     min (nat (rnn_batch_size (Config env))) (length (Sequences env (zarr_path a) ''valid''))"

definition every_step_logging :: "args \<Rightarrow> ('k, 'o, 'x) framework \<Rightarrow> summary list" where
  "every_step_logging a env =
     concat (map (\<lambda>g. logging_event (drawn_size a env) g
                        (g div num_batch (main_locals a env))
                        (g mod num_batch (main_locals a env)))
       [0..<total_steps a env])"

text \<open>The small run with a summary at every step, with batches of two and of four.\<close>

definition demo8_env :: "(nat, unit, nat) framework" where
  "demo8_env = demo_env\<lparr>Config := demo_cfg\<lparr>rnn_summary_step := 1\<rparr>\<rparr>"

definition demo8b_env :: "(nat, unit, nat) framework" where
  "demo8b_env = demo_env\<lparr>Config := demo_cfg\<lparr>rnn_summary_step := 1, rnn_batch_size := 4\<rparr>\<rparr>"

section \<open>Accuracy and global steps as the design states them\<close>

text \<open>
  The accuracy in the words of the design: the predicted class of a time step is the
  position of the largest of its three logits (the first one, if several are largest), and
  the accuracy counts the time steps whose predicted class is the label. This definition
  uses neither \<open>argmax\<close> nor \<open>eq_sum\<close>; the two are compared below.
\<close>

fun row_list :: "logits \<Rightarrow> real list" where
  "row_list (a, b, c) = [a, b, c]"

definition first_max :: "logits \<Rightarrow> nat \<Rightarrow> bool" where
  "first_max row k =
     (k < 3 \<and> list_all (\<lambda>x. x \<le> row_list row ! k) (row_list row)
      \<and> list_all (\<lambda>x. x < row_list row ! k) (take k (row_list row)))"

definition correct_steps :: "logits list \<Rightarrow> nat list \<Rightarrow> nat" where
  "correct_steps rows labels =
     length (filter (\<lambda>k. first_max (rows ! k) (labels ! k)) [0..<length labels])"

text \<open>
  The global step, epoch index and batch index that the first line printed by the metric
  logger shows, for every logging event of a trace.
\<close>

fun printed_of :: "summary \<Rightarrow> (nat \<times> nat \<times> nat) list" where
  "printed_of (PrintedLoss g i e) = [(g, e, i)]"
| "printed_of (Drawn n) = []"
| "printed_of PrintedAcc = []"
| "printed_of (Scalars tag keys g) = []"

definition printed_steps :: "('k, 'x) event list \<Rightarrow> (nat \<times> nat \<times> nat) list" where
  "printed_steps tr = concat (map printed_of (summaries tr))"

text \<open>The scalar groups appended to the log, in order: tag, keys with values, global step.\<close>

fun scalars_of :: "('k, 'x) event \<Rightarrow> (string \<times> (string \<times> pyfloat) list \<times> nat) list" where
  "scalars_of (AddScalars tag kv g) = [(tag, kv, g)]"
| "scalars_of (Makedirs d) = []"
| "scalars_of ZeroGrad = []"
| "scalars_of Backward = []"
| "scalars_of OptimStep = []"
| "scalars_of (Save path w) = []"
| "scalars_of (ValidBatch b) = []"
| "scalars_of (PrintLoss g i e l l') = []"
| "scalars_of (PrintAcc a d a' d') = []"

definition scalars :: "('k, 'x) event list \<Rightarrow> (string \<times> (string \<times> pyfloat) list \<times> nat) list" where
  "scalars tr = concat (map scalars_of tr)"

text \<open>
  The small run on a data set whose examples have no time step: the label rows are empty
  and the network returns no row of logits.
\<close>

definition demo_nan_env :: "(nat, unit, nat) framework" where
  "demo_nan_env = demo_env\<lparr>Sequences := (\<lambda>p split. [(0, []), (1, [])]),
     forward := (\<lambda>w m xs. map (\<lambda>x. []) xs)\<rparr>"

text \<open>
  What the first printed lines of a whole run of \<^verbatim>\<open>main\<close> are to show: global step,
  epoch index and batch index of every global step that the summary interval divides.
\<close>

definition printed_expected :: "args \<Rightarrow> ('k, 'o, 'x) framework \<Rightarrow> (nat \<times> nat \<times> nat) list" where
  "printed_expected a env =
     map (\<lambda>g. (g, g div num_batch (main_locals a env), g mod num_batch (main_locals a env)))
       (filter (due (rnn_summary_step (Config env))) [0..<total_steps a env])"


section \<open>Decimal numbers and checkpoint names\<close>

lemma distinct_digits: "distinct ''0123456789''"
  by simp

lemma digit_char_inj: "a < 10 \<Longrightarrow> b < 10 \<Longrightarrow> digit_char a = digit_char b \<Longrightarrow> a = b"
  unfolding digit_char_def
  using distinct_digits by (simp add: nth_eq_iff_index_eq del: distinct.simps)

lemma digit_char_in: "d < 10 \<Longrightarrow> digit_char d \<in> set ''0123456789''"
  unfolding digit_char_def by (rule nth_mem) simp

lemma str_nat_nonempty: "str_nat n \<noteq> []"
  by (subst str_nat.simps) simp

lemma str_nat_digits: "set (str_nat n) \<subseteq> set ''0123456789''"
proof (induction n rule: str_nat.induct)
  case (1 n)
  show ?case
  proof (cases "n < 10")
    case True
    then show ?thesis
      using digit_char_in [of n] by (subst str_nat.simps) simp
  next
    case False
    have "n mod 10 < 10" by simp
    then have "digit_char (n mod 10) \<in> set ''0123456789''" by (rule digit_char_in)
    with False 1 show ?thesis
      by (subst str_nat.simps) simp
  qed
qed

lemma str_nat_inj: "str_nat n = str_nat m \<Longrightarrow> n = m"
proof (induction n arbitrary: m rule: str_nat.induct)
  case (1 n)
  show ?case
  proof (cases "n < 10")
    case n: True
    show ?thesis
    proof (cases "m < 10")
      case True
      with n 1(2) show ?thesis
        by (simp add: str_nat.simps [of n] str_nat.simps [of m] digit_char_inj)
    next
      case False
      with n 1(2) str_nat_nonempty [of "m div 10"] show ?thesis
        by (simp add: str_nat.simps [of n] str_nat.simps [of m])
    qed
  next
    case n: False
    show ?thesis
    proof (cases "m < 10")
      case True
      with n 1(2) str_nat_nonempty [of "n div 10"] show ?thesis
        by (simp add: str_nat.simps [of n] str_nat.simps [of m])
    next
      case False
      with n 1(2) have e: "str_nat (n div 10) = str_nat (m div 10)"
        and d: "digit_char (n mod 10) = digit_char (m mod 10)"
        by (simp_all add: str_nat.simps [of n] str_nat.simps [of m])
      from 1(1) [OF n e] have "n div 10 = m div 10" .
      moreover from d have "n mod 10 = m mod 10"
        by (intro digit_char_inj) simp_all
      ultimately show ?thesis
        by (metis div_mult_mod_eq)
    qed
  qed
qed

lemma split_at_sep:
  "c \<notin> set a \<Longrightarrow> c \<notin> set a' \<Longrightarrow> a @ c # r = a' @ c # r' \<Longrightarrow> a = a' \<and> r = r'"
proof (induction a arbitrary: a')
  case Nil
  then show ?case by (cases a') auto
next
  case (Cons x a)
  then show ?case by (cases a') auto
qed

lemma underscore_not_digit: "CHR ''_'' \<notin> set (str_nat n)"
  using str_nat_digits [of n] by auto

lemma dash_not_digit: "CHR ''-'' \<notin> set (str_nat n)"
  using str_nat_digits [of n] by auto

lemma slash_not_digit: "CHR ''/'' \<notin> set (str_nat n)"
  using str_nat_digits [of n] by auto

lemma ckpt_name_inj:
  assumes "ckpt_name g e i = ckpt_name g' e' i'"
  shows "g = g' \<and> e = e' \<and> i = i'"
proof -
  from assms have
    "str_nat g @ CHR ''_'' # (str_nat e @ ''-'' @ str_nat i @ ''.ckpt'')
     = str_nat g' @ CHR ''_'' # (str_nat e' @ ''-'' @ str_nat i' @ ''.ckpt'')"
    by (simp add: ckpt_name_def)
  from split_at_sep [OF underscore_not_digit underscore_not_digit this]
  have g: "str_nat g = str_nat g'"
    and r: "str_nat e @ CHR ''-'' # (str_nat i @ ''.ckpt'') = str_nat e' @ CHR ''-'' # (str_nat i' @ ''.ckpt'')"
    by simp_all
  from split_at_sep [OF dash_not_digit dash_not_digit r]
  have e: "str_nat e = str_nat e'" and i: "str_nat i = str_nat i'"
    by simp_all
  from g e i show ?thesis by (simp add: str_nat_inj)
qed

lemma ckpt_name_hd: "ckpt_name g e i \<noteq> [] \<and> hd (ckpt_name g e i) \<noteq> CHR ''/''"
proof -
  have "hd (str_nat g) \<in> set (str_nat g)" using str_nat_nonempty by simp
  then have "hd (str_nat g) \<noteq> CHR ''/''" using slash_not_digit [of g] by metis
  then show ?thesis using str_nat_nonempty [of g] by (simp add: ckpt_name_def)
qed

lemma path_join_ckpt:
  "path_join d (ckpt_name g e i) =
     (if d = [] \<or> last d = CHR ''/'' then d else d @ ''/'') @ ckpt_name g e i"
  using ckpt_name_hd [of g e i] by (simp add: path_join_def)

lemma ckpt_path_inj:
  "ckpt_path d g e i = ckpt_path d g' e' i' \<Longrightarrow> g = g' \<and> e = e' \<and> i = i'"
  by (rule ckpt_name_inj) (simp add: ckpt_path_def path_join_ckpt)

section \<open>Batches of a loader\<close>

lemma chunks_Nil [simp]: "chunks n [] = []"
  by (simp add: chunks.simps)

lemma chunks_0 [simp]: "chunks 0 xs = []"
  by (simp add: chunks.simps)

lemma chunks_step:
  "0 < n \<Longrightarrow> xs \<noteq> [] \<Longrightarrow> chunks n xs = take n xs # chunks n (drop n xs)"
  by (subst chunks.simps) simp

lemma ceil_div_step:
  fixes m n :: nat
  assumes "0 < n"
  shows "(m + n + n - 1) div n = Suc ((m + n - 1) div n)"
proof -
  from assms obtain p where p: "n = Suc p" by (cases n) auto
  have "(m + n + n - 1) div n = ((m + p) + n) div n" by (simp add: p)
  also have "\<dots> = Suc ((m + p) div n)" using assms by simp
  also have "m + p = m + n - 1" by (simp add: p)
  finally show ?thesis .
qed

lemma ceil_div_small:
  fixes k n :: nat
  assumes "0 < k" "k < n"
  shows "(k + n - 1) div n = 1"
proof -
  from assms obtain j where j: "k + n - 1 = n + j" "j < n"
    by (metis Suc_diff_1 add.commute add_Suc_right diff_Suc_1 less_Suc_eq less_imp_Suc_add not_less_eq)
  then show ?thesis by simp
qed

lemma length_chunks: "0 < n \<Longrightarrow> length (chunks n xs) = (length xs + n - 1) div n"
proof (induction n xs rule: chunks.induct)
  case (1 n xs)
  show ?case
  proof (cases "xs = []")
    case True
    with 1(2) show ?thesis by simp
  next
    case False
    with 1 have ih: "length (chunks n (drop n xs)) = (length xs - n + n - 1) div n"
      by simp
    have c: "length (chunks n xs) = Suc (length (chunks n (drop n xs)))"
      using False 1(2) by (simp add: chunks_step)
    show ?thesis
    proof (cases "n \<le> length xs")
      case True
      then obtain m where m: "length xs = m + n"
        using le_Suc_ex add.commute by metis
      show ?thesis
        using c ih 1(2) by (simp only: m ceil_div_step add_diff_cancel_right')
    next
      case False
      then have "length xs < n" by simp
      moreover have "0 < length xs" using \<open>xs \<noteq> []\<close> by simp
      ultimately have "(length xs + n - 1) div n = 1"
        by (rule ceil_div_small [rotated])
      with False c ih show ?thesis by simp
    qed
  qed
qed

lemma length_randperm [simp]: "length (randperm key xs) = length xs"
  by (simp add: randperm_def)

section \<open>Traces of the two steps and of the loop body\<close>

lemma saved_append [simp]: "saved (a @ b) = saved a @ saved b"
  by (simp add: saved_def)

lemma saved_Nil [simp]: "saved [] = []"
  by (simp add: saved_def)

lemma saved_Cons [simp]: "saved (ev # tr) = save_of ev @ saved tr"
  by (simp add: saved_def)

lemma summaries_append [simp]: "summaries (a @ b) = summaries a @ summaries b"
  by (simp add: summaries_def)

lemma summaries_Nil [simp]: "summaries [] = []"
  by (simp add: summaries_def)

lemma summaries_Cons [simp]: "summaries (ev # tr) = summary_of ev @ summaries tr"
  by (simp add: summaries_def)

lemma train_step_unfold:
  "train_step env s d t =
     (case criterion env (concat (forward env (params s) True d)) (concat t) of
        Inl e \<Rightarrow> Raise e (s\<lparr>training := True\<rparr>)
      | Inr loss \<Rightarrow>
          Return (true_div (eq_sum (map argmax (concat (forward env (params s) True d))) (concat t))
                    (length (concat t)), loss)
            (s\<lparr>training := True,
               grads := autograd env (params s) d (concat t),
               params := snd (adam_step env (opt_lr s) (opt_state s) (params s)
                               (autograd env (params s) d (concat t))),
               opt_state := fst (adam_step env (opt_lr s) (opt_state s) (params s)
                               (autograd env (params s) d (concat t))),
               trace := trace s @ [ZeroGrad, Backward, OptimStep]\<rparr>))"
  by (simp add: train_step_def zero_grad_def backward_def optimizer_step_def Let_def
      split: sum.splits)

lemma valid_step_unfold:
  "valid_step env s d t =
     (case criterion env (concat (forward env (params s) False d)) (concat t) of
        Inl e \<Rightarrow> Raise e (s\<lparr>training := False\<rparr>)
      | Inr loss \<Rightarrow>
          Return (true_div (eq_sum (map argmax (concat (forward env (params s) False d))) (concat t))
                    (length (concat t)), loss)
            (s\<lparr>training := False\<rparr>))"
  by (simp add: valid_step_def Let_def split: sum.splits)

lemma iteration_saved_Return:
  assumes "iteration env L e i b s = Return u s'"
  shows "saved (trace s') = saved (trace s) @
           (if due (rnn_ckpt_step (cfg L)) (global_step_of L e i)
            then [(ckpt_path (dir L) (global_step_of L e i) e i, params s')] else [])"
  using assms
  by (auto simp: iteration_def train_step_unfold valid_step_unfold valid_first_def
      visualization_def save_model_def py_mod_def due_def Let_def
      split: sum.splits result.splits if_splits option.splits list.splits prod.splits)

lemma updates_append [simp]: "updates (a @ b) = updates a + updates b"
  by (simp add: updates_def)

lemma eq_sum_le: "eq_sum p t \<le> length t"
proof -
  have "eq_sum p t \<le> length (zip p t)"
    unfolding eq_sum_def by (rule length_filter_le)
  then show ?thesis by simp
qed

lemma true_div_unit:
  assumes "c \<le> n" "0 < n"
  shows "true_div c n = Num (real c / real n) \<and> 0 \<le> real c / real n \<and> real c / real n \<le> 1"
  using assms by (simp add: true_div_def)

lemma valid_loader_Nil: "valid_loader env [] bs g = []"
  by (simp add: valid_loader_def)

lemma valid_loader_first:
  assumes "vs \<noteq> []" "0 < bs"
  shows "\<exists>b rest. valid_loader env vs bs g = b # rest \<and> length (fst b) = min bs (length vs)"
proof -
  let ?xs = "map (\<lambda>p. vs ! (randint env g p mod length vs)) [0..<length vs]"
  from assms have ne: "?xs \<noteq> []" by simp
  have "valid_loader env vs bs g = collate (take bs ?xs) # map collate (chunks bs (drop bs ?xs))"
    unfolding valid_loader_def using chunks_step [OF assms(2) ne] by simp
  moreover have "length (fst (collate (take bs ?xs))) = min bs (length vs)"
    by (simp add: collate_def min.commute)
  ultimately show ?thesis by blast
qed

lemma iteration_saved_Raise:
  assumes "iteration env L e i b s = Raise er s'"
  shows "map fst (saved (trace s')) = map fst (saved (trace s))
         \<or> (due (rnn_ckpt_step (cfg L)) (global_step_of L e i)
            \<and> map fst (saved (trace s')) = map fst (saved (trace s))
                 @ [ckpt_path (dir L) (global_step_of L e i) e i])"
  using assms
  by (auto simp: iteration_def train_step_unfold valid_step_unfold valid_first_def
      visualization_def save_model_def py_mod_def due_def Let_def
      split: sum.splits result.splits if_splits option.splits list.splits prod.splits)

lemma iteration_summaries_Return:
  assumes "valid_set L \<noteq> []" "0 < batch_size L"
    and "iteration env L e i b s = Return u s'"
  shows "summaries (trace s') = summaries (trace s) @
           (if due (rnn_summary_step (cfg L)) (global_step_of L e i)
            then logging_event (min (batch_size L) (length (valid_set L)))
                   (global_step_of L e i) e i
            else [])"
proof -
  from valid_loader_first [OF assms(1,2)] obtain vb rest where
    v: "valid_loader env (valid_set L) (batch_size L) (global_step_of L e i) = vb # rest"
      "length (fst vb) = min (batch_size L) (length (valid_set L))"
    by blast
  show ?thesis
    using assms(3) v
    by (auto simp: iteration_def train_step_unfold valid_step_unfold valid_first_def
        visualization_def save_model_def py_mod_def due_def Let_def logging_event_def
        split: sum.splits result.splits if_splits option.splits prod.splits)
qed

lemma iteration_summaries_Raise:
  assumes "valid_set L \<noteq> []" "0 < batch_size L"
    and "iteration env L e i b s = Raise er s'"
  shows "summaries (trace s') = summaries (trace s)
         \<or> (due (rnn_summary_step (cfg L)) (global_step_of L e i)
            \<and> summaries (trace s') = summaries (trace s)
                 @ [Drawn (min (batch_size L) (length (valid_set L)))])"
proof -
  from valid_loader_first [OF assms(1,2)] obtain vb rest where
    v: "valid_loader env (valid_set L) (batch_size L) (global_step_of L e i) = vb # rest"
      "length (fst vb) = min (batch_size L) (length (valid_set L))"
    by blast
  show ?thesis
    using assms(3) v
    by (auto simp: iteration_def train_step_unfold valid_step_unfold valid_first_def
        visualization_def save_model_def py_mod_def due_def Let_def
        split: sum.splits result.splits if_splits option.splits prod.splits)
qed

lemma run_iterations_append:
  "run_iterations env L (xs @ ys) s =
     (case run_iterations env L xs s of
        Raise e s1 \<Rightarrow> Raise e s1
      | Return u s1 \<Rightarrow> run_iterations env L ys s1)"
  by (induction xs arbitrary: s) (auto split: result.splits)

lemma batch_loop_flat:
  "batch_loop env L e xs s = run_iterations env L (map (\<lambda>(i, b). (e, i, b)) xs) s"
  by (induction xs arbitrary: s) (auto split: result.splits)

lemma epoch_loop_flat:
  "epoch_loop env L es s = run_iterations env L (iterations env L es) s"
  by (induction es arbitrary: s)
    (auto simp: iterations_def epoch_iterations_def run_iterations_append batch_loop_flat
      split: result.splits)

section \<open>Traces of the loop\<close>

lemma checkpoints_of_Nil [simp]: "checkpoints_of L [] = []"
  by (simp add: checkpoints_of_def)

lemma checkpoints_of_Cons:
  "checkpoints_of L ((e, i, b) # its) =
     (if due (rnn_ckpt_step (cfg L)) (global_step_of L e i)
      then [ckpt_path (dir L) (global_step_of L e i) e i] else []) @ checkpoints_of L its"
  by (simp add: checkpoints_of_def)

lemma logging_of_Nil [simp]: "logging_of L [] = []"
  by (simp add: logging_of_def)

lemma logging_of_Cons:
  "logging_of L ((e, i, b) # its) =
     (if due (rnn_summary_step (cfg L)) (global_step_of L e i)
      then logging_event (min (batch_size L) (length (valid_set L))) (global_step_of L e i) e i
      else []) @ logging_of L its"
  by (simp add: logging_of_def)

lemma run_saved:
  "\<exists>rest. map fst (saved (trace (state_of (run_iterations env L its s))))
             = map fst (saved (trace s)) @ rest
          \<and> prefix rest (checkpoints_of L its)
          \<and> (is_Return (run_iterations env L its s) \<longrightarrow> rest = checkpoints_of L its)"
proof (induction its arbitrary: s)
  case Nil
  show ?case by simp
next
  case (Cons x its)
  obtain e i b where x: "x = (e, i, b)" by (cases x) auto
  let ?X = "if due (rnn_ckpt_step (cfg L)) (global_step_of L e i)
            then [ckpt_path (dir L) (global_step_of L e i) e i] else []"
  show ?case
  proof (cases "iteration env L e i b s")
    case (Return u s1)
    from iteration_saved_Return [OF Return]
    have s1: "map fst (saved (trace s1)) = map fst (saved (trace s)) @ ?X" by simp
    from Cons [of s1] obtain rest where
      r: "map fst (saved (trace (state_of (run_iterations env L its s1))))
            = map fst (saved (trace s1)) @ rest"
        "prefix rest (checkpoints_of L its)"
        "is_Return (run_iterations env L its s1) \<longrightarrow> rest = checkpoints_of L its"
      by blast
    have run: "run_iterations env L (x # its) s = run_iterations env L its s1"
      by (simp add: x Return)
    have "map fst (saved (trace (state_of (run_iterations env L (x # its) s))))
            = map fst (saved (trace s)) @ (?X @ rest)"
      by (simp only: run r(1) s1 append_assoc)
    moreover have "prefix (?X @ rest) (checkpoints_of L (x # its))"
      using r(2) by (simp only: x checkpoints_of_Cons same_prefix_prefix)
    moreover have "is_Return (run_iterations env L (x # its) s)
        \<longrightarrow> ?X @ rest = checkpoints_of L (x # its)"
      using r(3) unfolding run by (simp add: x checkpoints_of_Cons)
    ultimately show ?thesis by blast
  next
    case (Raise er s1)
    have run: "run_iterations env L (x # its) s = Raise er s1"
      by (simp add: x Raise)
    from iteration_saved_Raise [OF Raise]
    have "\<exists>rest. map fst (saved (trace s1)) = map fst (saved (trace s)) @ rest
            \<and> prefix rest (checkpoints_of L (x # its))"
    proof
      assume "map fst (saved (trace s1)) = map fst (saved (trace s))"
      then have "map fst (saved (trace s1)) = map fst (saved (trace s)) @ []
          \<and> prefix [] (checkpoints_of L (x # its))"
        by simp
      then show ?thesis by blast
    next
      assume d: "due (rnn_ckpt_step (cfg L)) (global_step_of L e i)
          \<and> map fst (saved (trace s1))
              = map fst (saved (trace s)) @ [ckpt_path (dir L) (global_step_of L e i) e i]"
      then have "prefix [ckpt_path (dir L) (global_step_of L e i) e i]
          (checkpoints_of L (x # its))"
        by (simp add: x checkpoints_of_Cons)
      with d show ?thesis by blast
    qed
    then show ?thesis by (simp add: run)
  qed
qed

lemma logging_event_hd:
  "prefix [Drawn n] (logging_event n g e i @ rest)"
  by (simp add: logging_event_def)

lemma run_summaries:
  assumes "valid_set L \<noteq> []" "0 < batch_size L"
  shows "\<exists>rest. summaries (trace (state_of (run_iterations env L its s)))
             = summaries (trace s) @ rest
          \<and> prefix rest (logging_of L its)
          \<and> (is_Return (run_iterations env L its s) \<longrightarrow> rest = logging_of L its)"
proof (induction its arbitrary: s)
  case Nil
  show ?case by simp
next
  case (Cons x its)
  obtain e i b where x: "x = (e, i, b)" by (cases x) auto
  let ?X = "if due (rnn_summary_step (cfg L)) (global_step_of L e i)
            then logging_event (min (batch_size L) (length (valid_set L)))
                   (global_step_of L e i) e i
            else []"
  show ?case
  proof (cases "iteration env L e i b s")
    case (Return u s1)
    from iteration_summaries_Return [OF assms Return]
    have s1: "summaries (trace s1) = summaries (trace s) @ ?X" .
    from Cons [of s1] obtain rest where
      r: "summaries (trace (state_of (run_iterations env L its s1)))
            = summaries (trace s1) @ rest"
        "prefix rest (logging_of L its)"
        "is_Return (run_iterations env L its s1) \<longrightarrow> rest = logging_of L its"
      by blast
    have run: "run_iterations env L (x # its) s = run_iterations env L its s1"
      by (simp add: x Return)
    have "summaries (trace (state_of (run_iterations env L (x # its) s)))
            = summaries (trace s) @ (?X @ rest)"
      by (simp only: run r(1) s1 append_assoc)
    moreover have "prefix (?X @ rest) (logging_of L (x # its))"
      using r(2) by (simp only: x logging_of_Cons same_prefix_prefix)
    moreover have "is_Return (run_iterations env L (x # its) s)
        \<longrightarrow> ?X @ rest = logging_of L (x # its)"
      using r(3) unfolding run by (simp add: x logging_of_Cons)
    ultimately show ?thesis by blast
  next
    case (Raise er s1)
    have run: "run_iterations env L (x # its) s = Raise er s1"
      by (simp add: x Raise)
    from iteration_summaries_Raise [OF assms Raise]
    have "\<exists>rest. summaries (trace s1) = summaries (trace s) @ rest
            \<and> prefix rest (logging_of L (x # its))"
    proof
      assume "summaries (trace s1) = summaries (trace s)"
      then have "summaries (trace s1) = summaries (trace s) @ []
          \<and> prefix [] (logging_of L (x # its))"
        by simp
      then show ?thesis by blast
    next
      assume d: "due (rnn_summary_step (cfg L)) (global_step_of L e i)
          \<and> summaries (trace s1) = summaries (trace s)
               @ [Drawn (min (batch_size L) (length (valid_set L)))]"
      then have "prefix [Drawn (min (batch_size L) (length (valid_set L)))]
          (logging_of L (x # its))"
        by (simp only: x logging_of_Cons if_True logging_event_hd)
      with d show ?thesis by blast
    qed
    then show ?thesis by (simp add: run)
  qed
qed

section \<open>The iterations of a run and their global steps\<close>

lemma length_train_loader:
  "0 < bs \<Longrightarrow> length (train_loader env ts bs e) = len_loader ts bs"
  by (simp add: train_loader_def len_loader_def length_chunks)

lemma epoch_iterations_idx:
  assumes "0 < batch_size L" "num_batch L = len_loader (train_set L) (batch_size L)"
  shows "map (\<lambda>(e, i, b). (e, i)) (epoch_iterations env L e) = map (Pair e) [0..<num_batch L]"
proof -
  let ?xs = "train_loader env (train_set L) (batch_size L) e"
  have len: "length ?xs = num_batch L"
    using assms by (simp add: length_train_loader)
  have "map (\<lambda>(e, i, b). (e, i)) (epoch_iterations env L e)
          = map (Pair e \<circ> fst) (enumerate 0 ?xs)"
    by (simp add: epoch_iterations_def split_def comp_def)
  also have "\<dots> = map (Pair e) (map fst (enumerate 0 ?xs))"
    by (simp only: map_map)
  also have "map fst (enumerate 0 ?xs) = [0..<num_batch L]"
    by (simp add: len)
  finally show ?thesis .
qed

lemma upt_block:
  "map (\<lambda>g. (g div nb, g mod nb)) [n * nb..<n * nb + nb] = map (Pair n) [0..<nb]"
proof -
  have "[n * nb..<n * nb + nb] = map (\<lambda>i. i + n * nb) [0..<nb]"
    by (simp add: map_add_upt add.commute)
  then have "map (\<lambda>g. (g div nb, g mod nb)) [n * nb..<n * nb + nb]
      = map (\<lambda>i. ((i + n * nb) div nb, (i + n * nb) mod nb)) [0..<nb]"
    by (simp add: comp_def)
  also have "\<dots> = map (Pair n) [0..<nb]"
    by (rule map_cong) simp_all
  finally show ?thesis .
qed

lemma iterations_snoc:
  "iterations env L [0..<Suc n] = iterations env L [0..<n] @ epoch_iterations env L n"
  by (simp add: iterations_def)

lemma iterations_idx:
  assumes "0 < batch_size L" "num_batch L = len_loader (train_set L) (batch_size L)"
  shows "map (\<lambda>(e, i, b). (e, i)) (iterations env L [0..<n])
           = map (\<lambda>g. (g div num_batch L, g mod num_batch L)) [0..<n * num_batch L]"
proof (induction n)
  case 0
  show ?case by (simp add: iterations_def)
next
  case (Suc n)
  have "Suc n * num_batch L = n * num_batch L + num_batch L" by simp
  then have "[0..<Suc n * num_batch L] = [0..<n * num_batch L + num_batch L]"
    by (simp only:)
  also have "\<dots> = [0..<n * num_batch L] @ [n * num_batch L..<n * num_batch L + num_batch L]"
    by (rule upt_add_eq_append) simp
  finally have "[0..<Suc n * num_batch L]
      = [0..<n * num_batch L] @ [n * num_batch L..<n * num_batch L + num_batch L]" .
  then show ?case
    by (simp only: iterations_snoc map_append Suc upt_block
        epoch_iterations_idx [OF assms])
qed

lemma by_index:
  "map (\<lambda>(e, i, b). F e i) (filter (\<lambda>(e, i, b). P e i) its)
     = map (\<lambda>(e, i). F e i) (filter (\<lambda>(e, i). P e i) (map (\<lambda>(e, i, b). (e, i)) its))"
  by (induction its) auto

lemma by_steps:
  assumes "map (\<lambda>(e, i, b). (e, i)) its
             = map (\<lambda>g. (g div num_batch L, g mod num_batch L)) [0..<N]"
  shows "map (\<lambda>(e, i, b). F (global_step_of L e i) e i)
           (filter (\<lambda>(e, i, b). P (global_step_of L e i)) its)
         = map (\<lambda>g. F g (g div num_batch L) (g mod num_batch L)) (filter P [0..<N])"
proof -
  have g: "\<And>g. global_step_of L (g div num_batch L) (g mod num_batch L) = g"
    by (simp add: global_step_of_def)
  have "map (\<lambda>(e, i, b). F (global_step_of L e i) e i)
           (filter (\<lambda>(e, i, b). P (global_step_of L e i)) its)
      = map (\<lambda>(e, i). F (global_step_of L e i) e i)
          (filter (\<lambda>(e, i). P (global_step_of L e i))
             (map (\<lambda>g. (g div num_batch L, g mod num_batch L)) [0..<N]))"
    by (simp only: by_index [of "\<lambda>e i. F (global_step_of L e i) e i"
          "\<lambda>e i. P (global_step_of L e i)"] assms)
  also have "\<dots> = map (\<lambda>g. F g (g div num_batch L) (g mod num_batch L)) (filter P [0..<N])"
    by (simp add: filter_map comp_def g)
  finally show ?thesis .
qed

lemma checkpoints_by_steps:
  assumes "0 < batch_size L" "num_batch L = len_loader (train_set L) (batch_size L)"
  shows "checkpoints_of L (iterations env L [0..<n])
           = map (\<lambda>g. ckpt_path (dir L) g (g div num_batch L) (g mod num_batch L))
               (filter (due (rnn_ckpt_step (cfg L))) [0..<n * num_batch L])"
  unfolding checkpoints_of_def
  by (rule by_steps [OF iterations_idx [OF assms]])

lemma logging_by_steps:
  assumes "0 < batch_size L" "num_batch L = len_loader (train_set L) (batch_size L)"
  shows "logging_of L (iterations env L [0..<n])
           = concat (map (\<lambda>g. logging_event (min (batch_size L) (length (valid_set L)))
                                 g (g div num_batch L) (g mod num_batch L))
               (filter (due (rnn_summary_step (cfg L))) [0..<n * num_batch L]))"
  unfolding logging_of_def
  by (simp only: by_steps [OF iterations_idx [OF assms]])

lemma main_unfold:
  "main a env =
     (if Sequences env (zarr_path a) ''train'' = [] \<or> rnn_batch_size (Config env) \<le> 0
         \<or> Sequences env (zarr_path a) ''valid'' = []
      then Raise ValueError (initial_state a env)
      else run_iterations env (main_locals a env)
             (iterations env (main_locals a env) [0..<nat (rnn_num_epochs (Config env))])
             (initial_state a env))"
  by (simp add: main_def Let_def epoch_loop_flat main_locals_def)

lemma initial_observations:
  "saved (trace (initial_state a env)) = [] \<and> summaries (trace (initial_state a env)) = []"
  by (simp add: initial_state_def)

section \<open>Traces of a whole run\<close>

lemma main_rejects:
  assumes "Sequences env (zarr_path a) ''train'' = [] \<or> rnn_batch_size (Config env) \<le> 0
         \<or> Sequences env (zarr_path a) ''valid'' = []"
  shows "main a env = Raise ValueError (initial_state a env)"
  using assms by (simp only: main_unfold if_True)

lemma main_runs:
  assumes "\<not> (Sequences env (zarr_path a) ''train'' = [] \<or> rnn_batch_size (Config env) \<le> 0
         \<or> Sequences env (zarr_path a) ''valid'' = [])"
  shows "main a env = run_iterations env (main_locals a env)
             (iterations env (main_locals a env) [0..<nat (rnn_num_epochs (Config env))])
             (initial_state a env)"
    and "0 < batch_size (main_locals a env)"
    and "valid_set (main_locals a env) \<noteq> []"
    and "num_batch (main_locals a env)
           = len_loader (train_set (main_locals a env)) (batch_size (main_locals a env))"
    and "checkpoints_of (main_locals a env)
           (iterations env (main_locals a env) [0..<nat (rnn_num_epochs (Config env))])
         = expected_checkpoints a env"
    and "logging_of (main_locals a env)
           (iterations env (main_locals a env) [0..<nat (rnn_num_epochs (Config env))])
         = expected_logging a env"
proof -
  show "main a env = run_iterations env (main_locals a env)
             (iterations env (main_locals a env) [0..<nat (rnn_num_epochs (Config env))])
             (initial_state a env)"
    using assms by (simp only: main_unfold if_False)
  show bs: "0 < batch_size (main_locals a env)"
    using assms by (simp add: main_locals_def)
  show "valid_set (main_locals a env) \<noteq> []"
    using assms by (simp add: main_locals_def)
  show nb: "num_batch (main_locals a env)
           = len_loader (train_set (main_locals a env)) (batch_size (main_locals a env))"
    by (simp add: main_locals_def)
  show "checkpoints_of (main_locals a env)
           (iterations env (main_locals a env) [0..<nat (rnn_num_epochs (Config env))])
         = expected_checkpoints a env"
    unfolding checkpoints_by_steps [OF bs nb] expected_checkpoints_def total_steps_def
    by (simp add: main_locals_def)
  show "logging_of (main_locals a env)
           (iterations env (main_locals a env) [0..<nat (rnn_num_epochs (Config env))])
         = expected_logging a env"
    unfolding logging_by_steps [OF bs nb] expected_logging_def total_steps_def
    by (simp add: main_locals_def)
qed

lemma main_saved:
  "prefix (map fst (saved (trace (state_of (main a env))))) (expected_checkpoints a env)
   \<and> (is_Return (main a env) \<longrightarrow>
        map fst (saved (trace (state_of (main a env)))) = expected_checkpoints a env)"
proof (cases "Sequences env (zarr_path a) ''train'' = [] \<or> rnn_batch_size (Config env) \<le> 0
         \<or> Sequences env (zarr_path a) ''valid'' = []")
  case True
  show ?thesis
    by (simp add: main_rejects [OF True] initial_observations)
next
  case False
  note m = main_runs [OF False]
  from run_saved [of env "main_locals a env"
      "iterations env (main_locals a env) [0..<nat (rnn_num_epochs (Config env))]"
      "initial_state a env"]
  obtain rest where
    "map fst (saved (trace (state_of (main a env))))
       = map fst (saved (trace (initial_state a env))) @ rest"
    "prefix rest (expected_checkpoints a env)"
    "is_Return (main a env) \<longrightarrow> rest = expected_checkpoints a env"
    unfolding m(1) [symmetric] m(5) by blast
  then show ?thesis
    by (simp add: initial_observations)
qed

lemma main_summaries:
  "prefix (summaries (trace (state_of (main a env)))) (expected_logging a env)
   \<and> (is_Return (main a env) \<longrightarrow>
        summaries (trace (state_of (main a env))) = expected_logging a env)"
proof (cases "Sequences env (zarr_path a) ''train'' = [] \<or> rnn_batch_size (Config env) \<le> 0
         \<or> Sequences env (zarr_path a) ''valid'' = []")
  case True
  show ?thesis
    by (simp add: main_rejects [OF True] initial_observations)
next
  case False
  note m = main_runs [OF False]
  from run_summaries [OF m(3) m(2), of env
      "iterations env (main_locals a env) [0..<nat (rnn_num_epochs (Config env))]"
      "initial_state a env"]
  obtain rest where
    "summaries (trace (state_of (main a env)))
       = summaries (trace (initial_state a env)) @ rest"
    "prefix rest (expected_logging a env)"
    "is_Return (main a env) \<longrightarrow> rest = expected_logging a env"
    unfolding m(1) [symmetric] m(6) by blast
  then show ?thesis
    by (simp add: initial_observations)
qed

lemma iteration_params_Return:
  assumes "iteration env L e i b s = Return u s'"
  shows "params s' = params (state_of (train_step env s (fst b) (snd b)))"
  using assms
  by (auto simp: iteration_def train_step_unfold valid_step_unfold valid_first_def
      visualization_def save_model_def py_mod_def Let_def
      split: sum.splits result.splits if_splits option.splits list.splits prod.splits)

lemma result_cases_state:
  "is_Return r \<Longrightarrow> \<exists>u. r = Return u (state_of r)"
  by (cases r) simp_all

lemma ckpt_path_inj_on: "inj (\<lambda>(g, e, i). ckpt_path d g e i)"
  by (rule injI) (auto dest: ckpt_path_inj)

lemma distinct_expected_checkpoints: "distinct (expected_checkpoints a env)"
proof -
  have "inj_on (\<lambda>g. ckpt_path (ckpt_dir a) g (g div num_batch (main_locals a env))
                 (g mod num_batch (main_locals a env)))
          (set (filter (due (rnn_ckpt_step (Config env))) [0..<total_steps a env]))"
    by (rule inj_onI) (auto dest: ckpt_path_inj)
  then show ?thesis
    unfolding expected_checkpoints_def by (simp add: distinct_map)
qed

lemma due_dvd: "due step g = (step \<noteq> 0 \<and> step dvd int g)"
  by (auto simp: due_def dvd_eq_mod_eq_0)

section \<open>Global steps of a run and validation batches\<close>

lemma main_global_steps:
  assumes "0 < rnn_batch_size (Config env)"
  shows "map (\<lambda>(e, i, b). global_step_of (main_locals a env) e i) (main_iterations a env)
           = [0..<total_steps a env]"
proof -
  let ?L = "main_locals a env"
  from assms have bs: "0 < batch_size ?L" by (simp add: main_locals_def)
  have nb: "num_batch ?L = len_loader (train_set ?L) (batch_size ?L)"
    by (simp add: main_locals_def)
  from by_steps [OF iterations_idx [OF bs nb, of env "nat (rnn_num_epochs (Config env))"],
      where F = "\<lambda>g e i. g" and P = "\<lambda>g. True"]
  show ?thesis
    by (simp add: main_iterations_def total_steps_def)
qed


section \<open>Logging at every step\<close>

lemma due_one: "due 1 g"
  by (simp add: due_def)

lemma every_step_logging_eq:
  "rnn_summary_step (Config env) = 1 \<Longrightarrow> expected_logging a env = every_step_logging a env"
  by (simp add: expected_logging_def every_step_logging_def drawn_size_def due_one)

lemma iteration_timing:
  assumes "valid_set L \<noteq> []" "0 < batch_size L"
    and "is_Return (iteration env L e i b s)"
    and "due (rnn_summary_step (cfg L)) (global_step_of L e i)"
    and "outcome (train_step env s (fst b) (snd b)) = Inr (ta, l1)"
  shows "\<exists>va vl. valid_vars (state_of (iteration env L e i b s))
             = Some (va, vl, timing_error (num_steps (cfg L)) (step_stride (cfg L)) va)
         \<and> last (trace (state_of (iteration env L e i b s)))
             = AddScalars ''dt_sec''
                 [(''train_dt'', timing_error (num_steps (cfg L)) (step_stride (cfg L)) ta),
                  (''valid_dt'', timing_error (num_steps (cfg L)) (step_stride (cfg L)) va)]
                 (global_step_of L e i)"
proof -
  from valid_loader_first [OF assms(1,2)] obtain vb rest where
    v: "valid_loader env (valid_set L) (batch_size L) (global_step_of L e i) = vb # rest"
    by blast
  show ?thesis
    using assms(3-5) v
    by (auto simp: iteration_def train_step_unfold valid_step_unfold valid_first_def
        visualization_def save_model_def py_mod_def due_def Let_def
        split: sum.splits result.splits if_splits option.splits prod.splits)
qed

section \<open>The count of correct time steps\<close>

lemma argmax_first_max: "first_max row k = (argmax row = k)"
proof (cases row)
  case (fields a b c)
  have k: "k < 3 \<longleftrightarrow> k = 0 \<or> k = 1 \<or> k = 2" by auto
  show ?thesis
    unfolding fields first_max_def k
    by (auto simp: numeral_2_eq_2)
qed

lemma zip_count_index:
  "length xs = length ys \<Longrightarrow>
     length (filter (\<lambda>(x, y). Q x y) (zip xs ys))
       = length (filter (\<lambda>k. Q (xs ! k) (ys ! k)) [0..<length ys])"
proof (induction xs ys rule: list_induct2)
  case Nil
  show ?case by simp
next
  case (Cons x xs y ys)
  have u: "[0..<length (y # ys)] = 0 # map Suc [0..<length ys]"
    by (simp add: upt_conv_Cons map_Suc_upt del: upt_Suc)
  show ?case
    unfolding u using Cons by (simp add: filter_map comp_def)
qed

lemma eq_sum_correct_steps:
  assumes "length rows = length labels"
  shows "eq_sum (map argmax rows) labels = correct_steps rows labels"
proof -
  have "eq_sum (map argmax rows) labels
      = length (filter (\<lambda>k. map argmax rows ! k = labels ! k) [0..<length labels])"
    unfolding eq_sum_def using assms
    by (simp add: zip_count_index [where Q = "\<lambda>p t. p = t"])
  also have "\<dots> = length (filter (\<lambda>k. argmax (rows ! k) = labels ! k) [0..<length labels])"
    using assms by (intro arg_cong [where f = length] filter_cong) simp_all
  finally show ?thesis
    by (simp add: correct_steps_def argmax_first_max)
qed

lemma correct_steps_le: "correct_steps rows labels \<le> length labels"
proof -
  have "correct_steps rows labels \<le> length [0..<length labels]"
    unfolding correct_steps_def by (rule length_filter_le)
  then show ?thesis by simp
qed

lemma criterion_length:
  "criterion env rows labels = Inr loss \<Longrightarrow> length rows = length labels"
  by (simp add: criterion_def split: if_splits)

section \<open>The global steps that a run prints\<close>

lemma printed_steps_append [simp]:
  "printed_steps (a @ b) = printed_steps a @ printed_steps b"
  by (simp add: printed_steps_def)

lemma printed_logging_event: "concat (map printed_of (logging_event n g e i)) = [(g, e, i)]"
  by (simp add: logging_event_def)

lemma concat_map_concat:
  "concat (map h (concat (map f xs))) = concat (map (\<lambda>x. concat (map h (f x))) xs)"
  by (induction xs) simp_all

lemma concat_map_single: "concat (map (\<lambda>x. [k x]) xs) = map k xs"
  by (induction xs) simp_all

lemma printed_expected_logging:
  "concat (map printed_of (expected_logging a env)) = printed_expected a env"
  unfolding expected_logging_def printed_expected_def
  by (simp only: concat_map_concat printed_logging_event concat_map_single)

lemma prefix_concat_map:
  "prefix xs ys \<Longrightarrow> prefix (concat (map h xs)) (concat (map h ys))"
  by (auto simp: prefix_def)

lemma main_printed:
  "prefix (printed_steps (trace (state_of (main a env)))) (printed_expected a env)
   \<and> (is_Return (main a env) \<longrightarrow>
        printed_steps (trace (state_of (main a env))) = printed_expected a env)"
proof -
  from main_summaries [of a env]
  have p: "prefix (summaries (trace (state_of (main a env)))) (expected_logging a env)"
    and r: "is_Return (main a env) \<longrightarrow>
        summaries (trace (state_of (main a env))) = expected_logging a env"
    by blast+
  from prefix_concat_map [OF p, of printed_of]
  have "prefix (printed_steps (trace (state_of (main a env)))) (printed_expected a env)"
    by (simp only: printed_steps_def printed_expected_logging)
  moreover from r have "is_Return (main a env) \<longrightarrow>
        printed_steps (trace (state_of (main a env))) = printed_expected a env"
    by (auto simp only: printed_steps_def printed_expected_logging)
  ultimately show ?thesis by blast
qed

lemma printed_expected_steps:
  "map fst (printed_expected a env)
     = filter (due (rnn_summary_step (Config env))) [0..<total_steps a env]"
  by (simp add: printed_expected_def comp_def)

lemma printed_expected_every_step:
  "rnn_summary_step (Config env) = 1 \<Longrightarrow> map fst (printed_expected a env) = [0..<total_steps a env]"
  by (simp add: printed_expected_steps due_one)

lemma prefix_sorted_wrt:
  "prefix xs ys \<Longrightarrow> sorted_wrt R ys \<Longrightarrow> sorted_wrt R xs"
  by (auto simp: prefix_def sorted_wrt_append)

lemma printed_expected_sorted: "sorted_wrt (<) (map fst (printed_expected a env))"
  unfolding printed_expected_steps
  by (rule sorted_wrt_filter) simp

lemma printed_expected_formula:
  "list_all (\<lambda>(g, e, i). g = num_batch (main_locals a env) * e + i) (printed_expected a env)"
  by (simp add: printed_expected_def list_all_iff)

lemma prefix_list_all: "prefix xs ys \<Longrightarrow> list_all P ys \<Longrightarrow> list_all P xs"
  by (auto simp: prefix_def)

lemma iteration_printed_Return:
  assumes "valid_set L \<noteq> []" "0 < batch_size L"
    and "iteration env L e i b s = Return u s'"
  shows "printed_steps (trace s') = printed_steps (trace s) @
           (if due (rnn_summary_step (cfg L)) (num_batch L * e + i)
            then [(num_batch L * e + i, e, i)] else [])"
  using iteration_summaries_Return [OF assms]
  by (simp add: printed_steps_def printed_logging_event global_step_of_def)

section \<open>Validation variables are assigned before they are read\<close>



section \<open>Properties of the training script\<close>

text \<open>
  Claim C9. The option \<^verbatim>\<open>--resume\<close> is accepted and never read: two runs whose arguments
  differ only in its value have the same result, that is the same outcome, the same final
  model and optimizer, and the same trace of checkpoints written, metrics logged and
  parameter updates performed.
\<close>

theorem resume_unused: "main (a\<lparr>resume := r\<rparr>) env = main a env"
  by (simp add: main_def main_locals_def initial_state_def)

text \<open>
  Claim C6. The derived timing error of an accuracy \<open>a\<close> is
  \<open>num_steps * (1 - a) * step_stride / 2\<close>. For a non-negative number of steps and
  stride and an accuracy between 0 and 1 it is not negative, and it does not grow when
  the accuracy grows; it falls strictly when both factors are positive. The training side
  and the validation side both compute it with \<open>timing_error\<close>: in an iteration that
  logs, the scalars appended last, under \<open>dt_sec\<close>, are the timing error of the
  accuracy returned by the training step and that of the validation accuracy.
  Numbers are real numbers here, without rounding.
\<close>

theorem timing_error_properties:
  "timing_error n stride (Num a) = Num (real_of_int n * (1 - a) * stride / 2)
   \<and> (0 \<le> n \<and> 0 \<le> stride \<and> 0 \<le> a \<and> a \<le> 1
        \<and> timing_error n stride (Num a) = Num dt \<longrightarrow> 0 \<le> dt)
   \<and> (0 \<le> n \<and> 0 \<le> stride \<and> a \<le> a'
        \<and> timing_error n stride (Num a) = Num dt
        \<and> timing_error n stride (Num a') = Num dt' \<longrightarrow> dt' \<le> dt)
   \<and> (0 < n \<and> 0 < stride \<and> a < a'
        \<and> timing_error n stride (Num a) = Num dt
        \<and> timing_error n stride (Num a') = Num dt' \<longrightarrow> dt' < dt)
   \<and> (valid_set L \<noteq> [] \<and> 0 < batch_size L \<and> is_Return (iteration env L e i b s)
        \<and> due (rnn_summary_step (cfg L)) (global_step_of L e i)
        \<and> outcome (train_step env s (fst b) (snd b)) = Inr (ta, l1) \<longrightarrow>
        (\<exists>va vl. valid_vars (state_of (iteration env L e i b s))
             = Some (va, vl, timing_error (num_steps (cfg L)) (step_stride (cfg L)) va)
         \<and> last (trace (state_of (iteration env L e i b s)))
             = AddScalars ''dt_sec''
                 [(''train_dt'', timing_error (num_steps (cfg L)) (step_stride (cfg L)) ta),
                  (''valid_dt'', timing_error (num_steps (cfg L)) (step_stride (cfg L)) va)]
                 (global_step_of L e i)))"
proof (intro conjI impI)
  show "timing_error n stride (Num a) = Num (real_of_int n * (1 - a) * stride / 2)"
    by (simp add: timing_error_def)
next
  assume h: "0 \<le> n \<and> 0 \<le> stride \<and> 0 \<le> a \<and> a \<le> 1
    \<and> timing_error n stride (Num a) = Num dt"
  then have "dt = real_of_int n * (1 - a) * stride / 2"
    by (simp add: timing_error_def)
  moreover from h have "0 \<le> real_of_int n * (1 - a) * stride" by simp
  ultimately show "0 \<le> dt" by simp
next
  assume h: "0 \<le> n \<and> 0 \<le> stride \<and> a \<le> a'
    \<and> timing_error n stride (Num a) = Num dt \<and> timing_error n stride (Num a') = Num dt'"
  then have d: "dt = real_of_int n * (1 - a) * stride / 2"
    "dt' = real_of_int n * (1 - a') * stride / 2"
    by (simp_all add: timing_error_def)
  from h have "real_of_int n * (1 - a') \<le> real_of_int n * (1 - a)"
    by (intro mult_left_mono) simp_all
  with h have "real_of_int n * (1 - a') * stride \<le> real_of_int n * (1 - a) * stride"
    by (intro mult_right_mono) simp_all
  then show "dt' \<le> dt" by (simp only: d divide_right_mono)
next
  assume h: "0 < n \<and> 0 < stride \<and> a < a'
    \<and> timing_error n stride (Num a) = Num dt \<and> timing_error n stride (Num a') = Num dt'"
  then have d: "dt = real_of_int n * (1 - a) * stride / 2"
    "dt' = real_of_int n * (1 - a') * stride / 2"
    by (simp_all add: timing_error_def)
  from h have "real_of_int n * (1 - a') < real_of_int n * (1 - a)"
    by (intro mult_strict_left_mono) simp_all
  with h have "real_of_int n * (1 - a') * stride < real_of_int n * (1 - a) * stride"
    by (intro mult_strict_right_mono) simp_all
  then show "dt' < dt" by (simp only: d divide_strict_right_mono)
next
  assume "valid_set L \<noteq> [] \<and> 0 < batch_size L \<and> is_Return (iteration env L e i b s)
        \<and> due (rnn_summary_step (cfg L)) (global_step_of L e i)
        \<and> outcome (train_step env s (fst b) (snd b)) = Inr (ta, l1)"
  then show "\<exists>va vl. valid_vars (state_of (iteration env L e i b s))
             = Some (va, vl, timing_error (num_steps (cfg L)) (step_stride (cfg L)) va)
         \<and> last (trace (state_of (iteration env L e i b s)))
             = AddScalars ''dt_sec''
                 [(''train_dt'', timing_error (num_steps (cfg L)) (step_stride (cfg L)) ta),
                  (''valid_dt'', timing_error (num_steps (cfg L)) (step_stride (cfg L)) va)]
                 (global_step_of L e i)"
    using iteration_timing [of L env e i b s ta l1] by blast
qed

theorem timing_error_properties_witness:
  "(0 \<le> (2::int) \<and> 0 \<le> (1/2::real) \<and> 0 \<le> (1/4::real) \<and> (1/4::real) \<le> 1)
   \<and> (0 < (2::int) \<and> 0 < (1/2::real) \<and> (1/4::real) < 3/4)
   \<and> timing_error 2 (1/2) (Num (1/4)) = Num (3/8)
   \<and> timing_error 2 (1/2) (Num (3/4)) = Num (1/8)
   \<and> 0 \<le> (3/8::real) \<and> (1/8::real) < 3/8
   \<and> valid_set demo_locals \<noteq> [] \<and> 0 < batch_size demo_locals
   \<and> is_Return (iteration demo_env demo_locals 0 0 demo_batch demo_state)
   \<and> due (rnn_summary_step (cfg demo_locals)) (global_step_of demo_locals 0 0)
   \<and> outcome (train_step demo_env demo_state (fst demo_batch) (snd demo_batch))
       = Inr (Num (1/2), 1)
   \<and> (\<exists>va. last (trace (state_of (iteration demo_env demo_locals 0 0 demo_batch demo_state)))
         = AddScalars ''dt_sec''
             [(''train_dt'', timing_error (num_steps (cfg demo_locals))
                               (step_stride (cfg demo_locals)) (Num (1/2))),
              (''valid_dt'', timing_error (num_steps (cfg demo_locals))
                               (step_stride (cfg demo_locals)) va)]
             (global_step_of demo_locals 0 0))"
proof -
  have a: "timing_error 2 (1/2) (Num (1/4)) = Num (3/8)"
    and b: "timing_error 2 (1/2) (Num (3/4)) = Num (1/8)"
    by (simp_all add: timing_error_def)
  have h: "valid_set demo_locals \<noteq> []" "0 < batch_size demo_locals"
    "is_Return (iteration demo_env demo_locals 0 0 demo_batch demo_state)"
    "due (rnn_summary_step (cfg demo_locals)) (global_step_of demo_locals 0 0)"
    "outcome (train_step demo_env demo_state (fst demo_batch) (snd demo_batch))
       = Inr (Num (1/2), 1)"
    by code_simp+
  note t = timing_error_properties [where n = 2 and stride = "1/2" and a = "1/4"
      and dt = "3/8" and a' = "3/4" and dt' = "1/8" and L = demo_locals and env = demo_env
      and e = 0 and i = 0 and b = demo_batch and s = demo_state and ta = "Num (1/2)"
      and ?l1.0 = 1]
  from a b t have n: "0 \<le> (3/8::real) \<and> (1/8::real) < 3/8" by simp
  from h t have l: "\<exists>va. last (trace (state_of
          (iteration demo_env demo_locals 0 0 demo_batch demo_state)))
         = AddScalars ''dt_sec''
             [(''train_dt'', timing_error (num_steps (cfg demo_locals))
                               (step_stride (cfg demo_locals)) (Num (1/2))),
              (''valid_dt'', timing_error (num_steps (cfg demo_locals))
                               (step_stride (cfg demo_locals)) va)]
             (global_step_of demo_locals 0 0)"
    by blast
  from a b h n l show ?thesis by simp
qed

text \<open>
  Claim C3. A call of the training step that returns has cleared the accumulated
  gradients, then propagated the loss back, then updated the parameters once, in this
  order and with nothing else: the gradients it leaves are those of the current loss
  alone, the new parameters and optimizer state are one update of the old ones by these
  gradients, and the whole result is the same whatever gradients had been accumulated
  before the call. A call that raises (the loss rejects the shapes or the labels) has
  updated nothing.
\<close>

theorem train_step_one_update:
  "(is_Return (train_step env s d t) \<longrightarrow>
      trace (state_of (train_step env s d t)) = trace s @ [ZeroGrad, Backward, OptimStep]
      \<and> updates (trace (state_of (train_step env s d t))) = updates (trace s) + 1
      \<and> grads (state_of (train_step env s d t)) = autograd env (params s) d (concat t)
      \<and> (opt_state (state_of (train_step env s d t)), params (state_of (train_step env s d t)))
          = adam_step env (opt_lr s) (opt_state s) (params s) (autograd env (params s) d (concat t))
      \<and> train_step env (s\<lparr>grads := g\<rparr>) d t = train_step env s d t)
   \<and> (\<not> is_Return (train_step env s d t) \<longrightarrow>
        trace (state_of (train_step env s d t)) = trace s
        \<and> params (state_of (train_step env s d t)) = params s)"
  by (simp add: train_step_unfold updates_def split: sum.splits)

theorem train_step_one_update_witness:
  "is_Return (train_step demo_env demo_state demo_data demo_target)
   \<and> trace (state_of (train_step demo_env demo_state demo_data demo_target))
       = trace demo_state @ [ZeroGrad, Backward, OptimStep]
   \<and> updates (trace (state_of (train_step demo_env demo_state demo_data demo_target)))
       = updates (trace demo_state) + 1
   \<and> train_step demo_env (demo_state\<lparr>grads := (\<lambda>k. 5)\<rparr>) demo_data demo_target
       = train_step demo_env demo_state demo_data demo_target
   \<and> \<not> is_Return (train_step demo_env demo_state demo_data [[0]])
   \<and> trace (state_of (train_step demo_env demo_state demo_data [[0]])) = trace demo_state
   \<and> params (state_of (train_step demo_env demo_state demo_data [[0]])) = params demo_state"
proof -
  have h: "is_Return (train_step demo_env demo_state demo_data demo_target)"
    by code_simp
  have n: "\<not> is_Return (train_step demo_env demo_state demo_data [[0]])"
    by code_simp
  from h train_step_one_update [of demo_env demo_state demo_data demo_target "\<lambda>k. 5"]
  have a: "trace (state_of (train_step demo_env demo_state demo_data demo_target))
       = trace demo_state @ [ZeroGrad, Backward, OptimStep]
   \<and> updates (trace (state_of (train_step demo_env demo_state demo_data demo_target)))
       = updates (trace demo_state) + 1
   \<and> train_step demo_env (demo_state\<lparr>grads := (\<lambda>k. 5)\<rparr>) demo_data demo_target
       = train_step demo_env demo_state demo_data demo_target"
    by blast
  from n train_step_one_update [of demo_env demo_state demo_data "[[0]]"]
  have b: "trace (state_of (train_step demo_env demo_state demo_data [[0]])) = trace demo_state
   \<and> params (state_of (train_step demo_env demo_state demo_data [[0]])) = params demo_state"
    by blast
  from h n a b show ?thesis by blast
qed

text \<open>
  Claim C4. The validation step leaves the state as it was but for the mode flag, which it
  sets to evaluation: parameters, accumulated gradients, optimizer state and trace are
  unchanged, so there is no backward pass and no update. What it hands back is the forward
  computation \<open>forward_metrics\<close> in evaluation mode, and the training step hands back
  the same computation in training mode.
\<close>

theorem valid_step_frame:
  "state_of (valid_step env s d t) = s\<lparr>training := False\<rparr>
   \<and> params (state_of (valid_step env s d t)) = params s
   \<and> grads (state_of (valid_step env s d t)) = grads s
   \<and> opt_state (state_of (valid_step env s d t)) = opt_state s
   \<and> trace (state_of (valid_step env s d t)) = trace s
   \<and> outcome (valid_step env s d t) = forward_metrics env (params s) False d t
   \<and> outcome (train_step env s d t) = forward_metrics env (params s) True d t"
  by (simp add: train_step_unfold valid_step_unfold forward_metrics_def Let_def
      split: sum.splits)

text \<open>
  Claim C7 says that the accuracy returned by the two steps is always between 0 and 1.
  For a batch without any time step both steps divide zero by zero and return NaN, which
  is no number between 0 and 1; a run on a data set whose label rows are empty logs NaN
  as training and validation accuracy at global step 0.
\<close>

theorem accuracy_nan_counterexample:
  "outcome (train_step demo_env demo_state [] []) = Inr (NaN, 1)
   \<and> outcome (valid_step demo_env demo_state [] []) = Inr (NaN, 1)
   \<and> is_Return (main demo_args demo_nan_env)
   \<and> scalars (trace (state_of (main demo_args demo_nan_env))) ! 1
       = (''seq_acc'', [(''train_acc'', NaN), (''valid_acc'', NaN)], 0)"
  by code_simp

text \<open>
  Claim C7, amended. For a batch with at least one flattened time step, the accuracy
  returned by the training step and by the validation step is a number between 0 and 1:
  the number of flattened time steps whose label is the class of the first largest logit,
  divided by the number of flattened time steps (\<open>correct_steps\<close> is defined without
  \<open>argmax\<close> and \<open>eq_sum\<close>). For a batch without time steps it is NaN. Numbers are
  real numbers here, without rounding.
\<close>

theorem accuracy_in_unit_interval:
  "(outcome (train_step env s d t) = Inr (acc, l) \<longrightarrow>
      acc = (if concat t = [] then NaN
             else Num (real (correct_steps (concat (forward env (params s) True d)) (concat t))
                       / real (length (concat t)))))
   \<and> (outcome (valid_step env s d t) = Inr (acc, l) \<longrightarrow>
      acc = (if concat t = [] then NaN
             else Num (real (correct_steps (concat (forward env (params s) False d)) (concat t))
                       / real (length (concat t)))))
   \<and> (labels \<noteq> [] \<longrightarrow>
        0 \<le> real (correct_steps rows labels) / real (length labels)
        \<and> real (correct_steps rows labels) / real (length labels) \<le> 1)"
proof (intro conjI impI)
  assume o: "outcome (train_step env s d t) = Inr (acc, l)"
  let ?rows = "concat (forward env (params s) True d)"
  from o obtain loss where c: "criterion env ?rows (concat t) = Inr loss"
    and acc: "acc = true_div (eq_sum (map argmax ?rows) (concat t)) (length (concat t))"
    by (auto simp: train_step_unfold split: sum.splits)
  have "eq_sum (map argmax ?rows) (concat t) = correct_steps ?rows (concat t)"
    using criterion_length [OF c] by (rule eq_sum_correct_steps)
  then show "acc = (if concat t = [] then NaN
             else Num (real (correct_steps ?rows (concat t)) / real (length (concat t))))"
    by (simp add: acc true_div_def)
next
  assume o: "outcome (valid_step env s d t) = Inr (acc, l)"
  let ?rows = "concat (forward env (params s) False d)"
  from o obtain loss where c: "criterion env ?rows (concat t) = Inr loss"
    and acc: "acc = true_div (eq_sum (map argmax ?rows) (concat t)) (length (concat t))"
    by (auto simp: valid_step_unfold split: sum.splits)
  have "eq_sum (map argmax ?rows) (concat t) = correct_steps ?rows (concat t)"
    using criterion_length [OF c] by (rule eq_sum_correct_steps)
  then show "acc = (if concat t = [] then NaN
             else Num (real (correct_steps ?rows (concat t)) / real (length (concat t))))"
    by (simp add: acc true_div_def)
next
  assume "labels \<noteq> []"
  then show "0 \<le> real (correct_steps rows labels) / real (length labels)" by simp
next
  assume "labels \<noteq> []"
  then show "real (correct_steps rows labels) / real (length labels) \<le> 1"
    using correct_steps_le [of rows labels] by simp
qed

theorem accuracy_in_unit_interval_witness:
  "concat demo_target \<noteq> []
   \<and> outcome (train_step demo_env demo_state demo_data demo_target) = Inr (Num (1/2), 1)
   \<and> outcome (valid_step demo_env demo_state demo_data demo_target) = Inr (Num (1/2), 1)
   \<and> Num (1/2) = Num (real (correct_steps
         (concat (forward demo_env (params demo_state) True demo_data)) (concat demo_target))
         / real (length (concat demo_target)))
   \<and> 0 \<le> real (correct_steps (concat (forward demo_env (params demo_state) True demo_data))
                 (concat demo_target)) / real (length (concat demo_target))
   \<and> real (correct_steps (concat (forward demo_env (params demo_state) True demo_data))
             (concat demo_target)) / real (length (concat demo_target)) \<le> 1
   \<and> concat ([] :: nat list list) = []
   \<and> outcome (train_step demo_env demo_state [] []) = Inr (NaN, 1)"
proof -
  have t: "concat demo_target \<noteq> []" by (simp add: demo_target_def)
  have a: "outcome (train_step demo_env demo_state demo_data demo_target) = Inr (Num (1/2), 1)"
    by code_simp
  have b: "outcome (valid_step demo_env demo_state demo_data demo_target) = Inr (Num (1/2), 1)"
    by code_simp
  have n: "outcome (train_step demo_env demo_state [] []) = Inr (NaN, 1)"
    by code_simp
  note inst = accuracy_in_unit_interval [where env = demo_env and s = demo_state
      and d = demo_data and t = demo_target and acc = "Num (1/2)" and l = 1
      and labels = "concat demo_target"
      and rows = "concat (forward demo_env (params demo_state) True demo_data)"]
  from t a inst have e: "Num (1/2) = Num (real (correct_steps
         (concat (forward demo_env (params demo_state) True demo_data)) (concat demo_target))
         / real (length (concat demo_target)))"
    by simp
  from t inst have r: "0 \<le> real (correct_steps
        (concat (forward demo_env (params demo_state) True demo_data)) (concat demo_target))
        / real (length (concat demo_target))
   \<and> real (correct_steps (concat (forward demo_env (params demo_state) True demo_data))
             (concat demo_target)) / real (length (concat demo_target)) \<le> 1"
    by blast
  have z: "concat ([] :: nat list list) = []" by simp
  from t a b e r z n show ?thesis by blast
qed

text \<open>
  Claim C1. In every run the files written by the checkpoint writer are, in order, a
  prefix of the files of the global steps \<open>0, 1, \<dots>\<close> that the checkpoint interval
  divides (step 0 included), one file for each such step, and in a run that returns they
  are all of them. The name of the file of a step is built from the global step, the epoch
  index and the batch index; the names of a run are distinct, and the name determines the
  three numbers. The content written in an iteration is the parameters as the training
  step of this iteration left them.
\<close>

theorem checkpoints_at_multiples:
  "prefix (map fst (saved (trace (state_of (main a env))))) (expected_checkpoints a env)
   \<and> (is_Return (main a env) \<longrightarrow>
        map fst (saved (trace (state_of (main a env)))) = expected_checkpoints a env)
   \<and> distinct (expected_checkpoints a env)
   \<and> inj (\<lambda>(g, e, i). ckpt_path d g e i)
   \<and> due step g = (step \<noteq> 0 \<and> step dvd int g)
   \<and> (is_Return (iteration env L e i b s) \<longrightarrow>
        saved (trace (state_of (iteration env L e i b s))) = saved (trace s) @
          (if due (rnn_ckpt_step (cfg L)) (global_step_of L e i)
           then [(ckpt_path (dir L) (global_step_of L e i) e i,
                  params (state_of (train_step env s (fst b) (snd b))))]
           else []))"
proof (intro conjI impI)
  show "prefix (map fst (saved (trace (state_of (main a env))))) (expected_checkpoints a env)"
    using main_saved [of a env] by blast
  show "map fst (saved (trace (state_of (main a env)))) = expected_checkpoints a env"
    if "is_Return (main a env)"
    using main_saved [of a env] that by blast
  show "distinct (expected_checkpoints a env)"
    by (rule distinct_expected_checkpoints)
  show "inj (\<lambda>(g, e, i). ckpt_path d g e i)"
    by (rule ckpt_path_inj_on)
  show "due step g = (step \<noteq> 0 \<and> step dvd int g)"
    by (rule due_dvd)
  show "saved (trace (state_of (iteration env L e i b s))) = saved (trace s) @
          (if due (rnn_ckpt_step (cfg L)) (global_step_of L e i)
           then [(ckpt_path (dir L) (global_step_of L e i) e i,
                  params (state_of (train_step env s (fst b) (snd b))))]
           else [])"
    if r: "is_Return (iteration env L e i b s)"
  proof -
    from result_cases_state [OF r] obtain u where
      u: "iteration env L e i b s = Return u (state_of (iteration env L e i b s))" ..
    show ?thesis
      using iteration_saved_Return [OF u] iteration_params_Return [OF u] by simp
  qed
qed

theorem checkpoints_at_multiples_witness:
  "is_Return (main demo_args demo_env)
   \<and> total_steps demo_args demo_env = 4
   \<and> map fst (saved (trace (state_of (main demo_args demo_env))))
       = [''out/0_0-0.ckpt'', ''out/3_1-1.ckpt'']
   \<and> expected_checkpoints demo_args demo_env = [''out/0_0-0.ckpt'', ''out/3_1-1.ckpt'']
   \<and> is_Return (iteration demo_env demo_locals 0 0 demo_batch demo_state)
   \<and> map fst (saved (trace (state_of (iteration demo_env demo_locals 0 0 demo_batch demo_state))))
       = [''out/0_0-0.ckpt'']"
proof -
  have r: "is_Return (main demo_args demo_env)" by code_simp
  have n: "total_steps demo_args demo_env = 4" by code_simp
  have e: "expected_checkpoints demo_args demo_env = [''out/0_0-0.ckpt'', ''out/3_1-1.ckpt'']"
    by code_simp
  have i: "is_Return (iteration demo_env demo_locals 0 0 demo_batch demo_state)" by code_simp
  have d: "due (rnn_ckpt_step (cfg demo_locals)) (global_step_of demo_locals 0 0)" by code_simp
  have s: "saved (trace demo_state) = []" by code_simp
  have p: "ckpt_path (dir demo_locals) (global_step_of demo_locals 0 0) 0 0 = ''out/0_0-0.ckpt''"
    by code_simp
  from checkpoints_at_multiples
    [where a = demo_args and env = demo_env and L = demo_locals and e = 0 and i = 0
       and b = demo_batch and s = demo_state]
  show ?thesis using r n e i d s p by simp
qed

text \<open>
  Claim C2. In every run what the metric logger does is, in order, a prefix of the logging
  events of the global steps that the summary interval divides, and in a run that returns
  it is all of them. A logging event draws one validation batch, then prints the two
  lines, then appends the scalar groups \<open>loss\<close>, \<open>seq_acc\<close> and \<open>dt_sec\<close> at
  the global step.
\<close>

theorem logging_at_multiples:
  "prefix (summaries (trace (state_of (main a env)))) (expected_logging a env)
   \<and> (is_Return (main a env) \<longrightarrow>
        summaries (trace (state_of (main a env))) = expected_logging a env)
   \<and> due step g = (step \<noteq> 0 \<and> step dvd int g)"
  using main_summaries [of a env] due_dvd [of step g] by blast

theorem logging_at_multiples_witness:
  "is_Return (main demo_args demo_env)
   \<and> total_steps demo_args demo_env = 4
   \<and> expected_logging demo_args demo_env = logging_event 2 0 0 0 @ logging_event 2 2 1 0
   \<and> summaries (trace (state_of (main demo_args demo_env)))
       = logging_event 2 0 0 0 @ logging_event 2 2 1 0"
proof -
  have r: "is_Return (main demo_args demo_env)" by code_simp
  have n: "total_steps demo_args demo_env = 4" by code_simp
  have e: "expected_logging demo_args demo_env = logging_event 2 0 0 0 @ logging_event 2 2 1 0"
    by code_simp
  from logging_at_multiples [where a = demo_args and env = demo_env]
  show ?thesis using r n e by simp
qed

text \<open>
  Claim C8 says that with a summary interval of 1 and at least four validation examples
  every logging event draws one validation batch of size 4, whatever the batch size of
  the training loader. The validation sampler groups by the same configured batch size
  as the training loader: in the small run with batches of two, every logging event draws
  a validation batch of two examples and none of four.
\<close>

theorem validation_batch_size_counterexample:
  "rnn_summary_step (Config demo8_env) = 1
   \<and> 4 \<le> length (Sequences demo8_env (zarr_path demo_args) ''valid'')
   \<and> is_Return (main demo_args demo8_env)
   \<and> summaries (trace (state_of (main demo_args demo8_env)))
       = logging_event 2 0 0 0 @ logging_event 2 1 0 1 @ logging_event 2 2 1 0
         @ logging_event 2 3 1 1
   \<and> Drawn 4 \<notin> set (summaries (trace (state_of (main demo_args demo8_env))))"
  by code_simp

text \<open>
  Claim C8, amended. With a summary interval of 1 and at least four validation examples,
  every global step has one logging event, and each logging event draws exactly one
  validation batch, whose size is the smaller of the configured batch size (the one the
  training loader uses as well) and the size of the validation set; it is 4 when the
  configured batch size is 4.
\<close>

theorem validation_batch_per_logging_event:
  "(rnn_summary_step (Config env) = 1 \<and> 4 \<le> length (Sequences env (zarr_path a) ''valid'')
      \<longrightarrow> prefix (summaries (trace (state_of (main a env)))) (every_step_logging a env)
          \<and> (is_Return (main a env) \<longrightarrow>
                summaries (trace (state_of (main a env))) = every_step_logging a env))
   \<and> drawn_size a env
        = min (nat (rnn_batch_size (Config env))) (length (Sequences env (zarr_path a) ''valid''))
   \<and> (rnn_batch_size (Config env) = 4 \<and> 4 \<le> length (Sequences env (zarr_path a) ''valid'')
      \<longrightarrow> drawn_size a env = 4)"
  using main_summaries [of a env] every_step_logging_eq [of env a]
  by (auto simp: drawn_size_def)

theorem validation_batch_per_logging_event_witness:
  "rnn_summary_step (Config demo8_env) = 1
   \<and> 4 \<le> length (Sequences demo8_env (zarr_path demo_args) ''valid'')
   \<and> is_Return (main demo_args demo8_env)
   \<and> drawn_size demo_args demo8_env = 2
   \<and> summaries (trace (state_of (main demo_args demo8_env)))
       = every_step_logging demo_args demo8_env
   \<and> rnn_batch_size (Config demo8b_env) = 4
   \<and> 4 \<le> length (Sequences demo8b_env (zarr_path demo_args) ''valid'')
   \<and> drawn_size demo_args demo8b_env = 4"
proof -
  have h: "rnn_summary_step (Config demo8_env) = 1"
    "4 \<le> length (Sequences demo8_env (zarr_path demo_args) ''valid'')"
    "is_Return (main demo_args demo8_env)"
    "drawn_size demo_args demo8_env = 2"
    "rnn_batch_size (Config demo8b_env) = 4"
    "4 \<le> length (Sequences demo8b_env (zarr_path demo_args) ''valid'')"
    by code_simp+
  from h validation_batch_per_logging_event [of demo8_env demo_args]
  have a: "summaries (trace (state_of (main demo_args demo8_env)))
       = every_step_logging demo_args demo8_env" by blast
  from h validation_batch_per_logging_event [of demo8b_env demo_args]
  have b: "drawn_size demo_args demo8b_env = 4" by blast
  from h a b show ?thesis by blast
qed

text \<open>
  Claim C5. The loop body works with the global step \<open>num_batch * epoch_idx + iter_idx\<close>:
  an iteration that returns has written the checkpoint file named after this number, the
  epoch index and the batch index exactly when the checkpoint interval divides this
  number, and has printed this number with the two indices exactly when the summary
  interval divides it. In every run of \<^verbatim>\<open>main\<close> the global steps printed are, in order,
  a prefix of the numbers \<open>0, 1, 2, \<dots>\<close> below epochs times batches that the summary
  interval divides, all of them when the run returns, and every one of \<open>0, 1, 2, \<dots>\<close> when
  the interval is 1; they increase strictly, and each is the number of batches of an epoch
  times the epoch index plus the batch index printed with it. The iterations of the two
  loops have the global steps \<open>0, 1, 2, \<dots>\<close> in this order.
\<close>

theorem global_step_increasing:
  "(is_Return (iteration env L e i b s) \<longrightarrow>
      map fst (saved (trace (state_of (iteration env L e i b s))))
        = map fst (saved (trace s)) @
            (if due (rnn_ckpt_step (cfg L)) (num_batch L * e + i)
             then [ckpt_path (dir L) (num_batch L * e + i) e i] else []))
   \<and> (valid_set L \<noteq> [] \<and> 0 < batch_size L \<and> is_Return (iteration env L e i b s) \<longrightarrow>
        printed_steps (trace (state_of (iteration env L e i b s)))
          = printed_steps (trace s) @
              (if due (rnn_summary_step (cfg L)) (num_batch L * e + i)
               then [(num_batch L * e + i, e, i)] else []))
   \<and> prefix (printed_steps (trace (state_of (main a env)))) (printed_expected a env)
   \<and> (is_Return (main a env) \<longrightarrow>
        printed_steps (trace (state_of (main a env))) = printed_expected a env)
   \<and> (is_Return (main a env) \<and> rnn_summary_step (Config env) = 1 \<longrightarrow>
        map fst (printed_steps (trace (state_of (main a env)))) = [0..<total_steps a env])
   \<and> sorted_wrt (<) (map fst (printed_steps (trace (state_of (main a env)))))
   \<and> list_all (\<lambda>(g, e, i). g = num_batch (main_locals a env) * e + i)
        (printed_steps (trace (state_of (main a env))))
   \<and> (0 < rnn_batch_size (Config env) \<longrightarrow>
        map (\<lambda>(e, i, b). global_step_of (main_locals a env) e i) (main_iterations a env)
          = [0..<total_steps a env])"
proof (intro conjI impI)
  note m = main_printed [of a env]
  show "map fst (saved (trace (state_of (iteration env L e i b s))))
        = map fst (saved (trace s)) @
            (if due (rnn_ckpt_step (cfg L)) (num_batch L * e + i)
             then [ckpt_path (dir L) (num_batch L * e + i) e i] else [])"
    if r: "is_Return (iteration env L e i b s)"
  proof -
    from result_cases_state [OF r] obtain u where
      u: "iteration env L e i b s = Return u (state_of (iteration env L e i b s))" ..
    show ?thesis
      using iteration_saved_Return [OF u] by (simp add: global_step_of_def)
  qed
  show "printed_steps (trace (state_of (iteration env L e i b s)))
          = printed_steps (trace s) @
              (if due (rnn_summary_step (cfg L)) (num_batch L * e + i)
               then [(num_batch L * e + i, e, i)] else [])"
    if h: "valid_set L \<noteq> [] \<and> 0 < batch_size L \<and> is_Return (iteration env L e i b s)"
  proof -
    from h have r: "is_Return (iteration env L e i b s)" by blast
    from result_cases_state [OF r] obtain u where
      u: "iteration env L e i b s = Return u (state_of (iteration env L e i b s))" ..
    from h show ?thesis
      by (intro iteration_printed_Return [OF _ _ u]) blast+
  qed
  show "prefix (printed_steps (trace (state_of (main a env)))) (printed_expected a env)"
    using m by blast
  show "printed_steps (trace (state_of (main a env))) = printed_expected a env"
    if "is_Return (main a env)"
    using m that by blast
  show "map fst (printed_steps (trace (state_of (main a env)))) = [0..<total_steps a env]"
    if "is_Return (main a env) \<and> rnn_summary_step (Config env) = 1"
    using m that printed_expected_every_step [of env a] by auto
  show "sorted_wrt (<) (map fst (printed_steps (trace (state_of (main a env)))))"
  proof (rule prefix_sorted_wrt)
    show "prefix (map fst (printed_steps (trace (state_of (main a env)))))
            (map fst (printed_expected a env))"
      using m by (blast intro: map_mono_prefix)
    show "sorted_wrt (<) (map fst (printed_expected a env))"
      by (rule printed_expected_sorted)
  qed
  show "list_all (\<lambda>(g, e, i). g = num_batch (main_locals a env) * e + i)
        (printed_steps (trace (state_of (main a env))))"
    using m printed_expected_formula [of a env] by (blast intro: prefix_list_all)
  show "map (\<lambda>(e, i, b). global_step_of (main_locals a env) e i) (main_iterations a env)
          = [0..<total_steps a env]"
    if "0 < rnn_batch_size (Config env)"
    using that by (rule main_global_steps)
qed

theorem global_step_increasing_witness:
  "is_Return (iteration demo_env demo_locals 1 1 demo_batch demo_state)
   \<and> valid_set demo_locals \<noteq> [] \<and> 0 < batch_size demo_locals
   \<and> num_batch demo_locals = 2
   \<and> map fst (saved (trace (state_of (iteration demo_env demo_locals 1 1 demo_batch demo_state))))
       = [''out/3_1-1.ckpt'']
   \<and> is_Return (iteration demo_env demo_locals 1 0 demo_batch demo_state)
   \<and> printed_steps (trace (state_of (iteration demo_env demo_locals 1 0 demo_batch demo_state)))
       = [(2, 1, 0)]
   \<and> is_Return (main demo_args demo_env)
   \<and> printed_steps (trace (state_of (main demo_args demo_env))) = [(0, 0, 0), (2, 1, 0)]
   \<and> is_Return (main demo_args demo8_env) \<and> rnn_summary_step (Config demo8_env) = 1
   \<and> map fst (printed_steps (trace (state_of (main demo_args demo8_env)))) = [0, 1, 2, 3]
   \<and> 0 < rnn_batch_size (Config demo_env)
   \<and> map (\<lambda>(e, i, b). global_step_of (main_locals demo_args demo_env) e i)
        (main_iterations demo_args demo_env) = [0, 1, 2, 3]"
proof -
  have h: "is_Return (iteration demo_env demo_locals 1 1 demo_batch demo_state)"
    "valid_set demo_locals \<noteq> []" "0 < batch_size demo_locals" "num_batch demo_locals = 2"
    "is_Return (iteration demo_env demo_locals 1 0 demo_batch demo_state)"
    "is_Return (main demo_args demo_env)"
    "is_Return (main demo_args demo8_env)" "rnn_summary_step (Config demo8_env) = 1"
    "0 < rnn_batch_size (Config demo_env)"
    by code_simp+
  have c: "saved (trace demo_state) = []" "printed_steps (trace demo_state) = []"
    "due (rnn_ckpt_step (cfg demo_locals)) (num_batch demo_locals * 1 + 1)"
    "ckpt_path (dir demo_locals) (num_batch demo_locals * 1 + 1) 1 1 = ''out/3_1-1.ckpt''"
    "due (rnn_summary_step (cfg demo_locals)) (num_batch demo_locals * 1 + 0)"
    "printed_expected demo_args demo_env = [(0, 0, 0), (2, 1, 0)]"
    "[0..<total_steps demo_args demo8_env] = [0, 1, 2, 3]"
    "[0..<total_steps demo_args demo_env] = [0, 1, 2, 3]"
    by code_simp+
  note i1 = global_step_increasing [where env = demo_env and L = demo_locals and e = 1
      and i = 1 and b = demo_batch and s = demo_state and a = demo_args]
  note i0 = global_step_increasing [where env = demo_env and L = demo_locals and e = 1
      and i = 0 and b = demo_batch and s = demo_state and a = demo_args]
  note i8 = global_step_increasing [where env = demo8_env and a = demo_args]
  from h i1 have s1: "map fst (saved (trace (state_of
        (iteration demo_env demo_locals 1 1 demo_batch demo_state))))
        = map fst (saved (trace demo_state)) @
            (if due (rnn_ckpt_step (cfg demo_locals)) (num_batch demo_locals * 1 + 1)
             then [ckpt_path (dir demo_locals) (num_batch demo_locals * 1 + 1) 1 1] else [])"
    by blast
  from h i0 have s0: "printed_steps (trace (state_of
        (iteration demo_env demo_locals 1 0 demo_batch demo_state)))
          = printed_steps (trace demo_state) @
              (if due (rnn_summary_step (cfg demo_locals)) (num_batch demo_locals * 1 + 0)
               then [(num_batch demo_locals * 1 + 0, 1, 0)] else [])"
    by blast
  from h i0 have m: "printed_steps (trace (state_of (main demo_args demo_env)))
      = printed_expected demo_args demo_env" by blast
  from h i8 have m8: "map fst (printed_steps (trace (state_of (main demo_args demo8_env))))
      = [0..<total_steps demo_args demo8_env]" by blast
  from h i0 have g: "map (\<lambda>(e, i, b). global_step_of (main_locals demo_args demo_env) e i)
        (main_iterations demo_args demo_env) = [0..<total_steps demo_args demo_env]" by blast
  have a1: "map fst (saved (trace (state_of
        (iteration demo_env demo_locals 1 1 demo_batch demo_state)))) = [''out/3_1-1.ckpt'']"
    unfolding s1 using c by simp
  have a0: "printed_steps (trace (state_of
        (iteration demo_env demo_locals 1 0 demo_batch demo_state))) = [(2, 1, 0)]"
    unfolding s0 using c h by simp
  from h a1 a0 m m8 g c show ?thesis by simp
qed





end
